theory Spec2Isabelle
  imports Complex_Main
begin

section \<open>The automation orchestrator of the SpaceTraders UI (services/automation)\<close>

text \<open>
  The development embeds the class \<^verbatim>\<open>AutomationOrchestrator\<close>: its data
  (\<^verbatim>\<open>AutomationPolicy\<close>, \<^verbatim>\<open>AutomationState\<close>, \<^verbatim>\<open>ActionStep\<close>), the ship
  snapshot it reads, and its methods. Mutation of the orchestrator's two maps and of the
  state objects they hold is written as explicit state passing. Every remote call of the
  \<^verbatim>\<open>spaceTraders\<close> service is an input: an environment says whether the call succeeds or
  throws, and every function that can call the service returns the list of calls it made.
\<close>

subsection \<open>JavaScript numbers and strings\<close>

text \<open>
  API quantities (units, capacities, seconds) are integers. A quotient of two of them is a
  JavaScript number: finite, or one of the three values a division by zero produces.
  Finite numbers are rationals; the rounding of IEEE doubles is not modelled.
\<close>

datatype jsnum = Fin rat | PosInf | NegInf | NaN

definition js_div :: "int \<Rightarrow> int \<Rightarrow> jsnum" where
  "js_div a b =
     (if b \<noteq> 0 then Fin (of_int a / of_int b)
      else if a > 0 then PosInf
      else if a < 0 then NegInf
      else NaN)"

fun js_times :: "jsnum \<Rightarrow> rat \<Rightarrow> jsnum" where
  "js_times (Fin x) k = Fin (x * k)"
| "js_times PosInf k = (if k > 0 then PosInf else if k < 0 then NegInf else NaN)"
| "js_times NegInf k = (if k > 0 then NegInf else if k < 0 then PosInf else NaN)"
| "js_times NaN k = NaN"

fun js_less :: "jsnum \<Rightarrow> rat \<Rightarrow> bool" where
  "js_less (Fin x) m = (x < m)"
| "js_less NegInf m = True"
| "js_less PosInf m = False"
| "js_less NaN m = False"

text \<open>\<^verbatim>\<open>String.prototype.includes\<close>: the second string occurs somewhere in the first.\<close>

fun starts_with :: "string \<Rightarrow> string \<Rightarrow> bool" where
  "starts_with s [] = True"
| "starts_with [] (c # cs) = False"
| "starts_with (d # ds) (c # cs) = (d = c \<and> starts_with ds cs)"

fun str_includes :: "string \<Rightarrow> string \<Rightarrow> bool" where
  "str_includes [] sub = (sub = [])"
| "str_includes (d # ds) sub = (starts_with (d # ds) sub \<or> str_includes ds sub)"

text \<open>The decimal text of an integer, as a template literal prints it.\<close>

fun string_of_nat :: "nat \<Rightarrow> string" where
  "string_of_nat n =
     (if n < 10 then [''0123456789'' ! n]
      else string_of_nat (n div 10) @ [''0123456789'' ! (n mod 10)])"

declare string_of_nat.simps [simp del]

definition string_of_int :: "int \<Rightarrow> string" where
  "string_of_int i = (if i < 0 then ''-'' @ string_of_nat (nat (- i)) else string_of_nat (nat i))"

subsection \<open>The ship snapshot and contracts (types/api)\<close>

datatype nav_status = IN_TRANSIT | IN_ORBIT | DOCKED

record CargoItem =
  item_symbol :: string
  item_units :: int

text \<open>
  The fields of \<^verbatim>\<open>Ship\<close> that the orchestrator reads. \<^verbatim>\<open>cooldown\<close> is optional; of a
  mount only its symbol is read. The interface \<^verbatim>\<open>Ship\<close> of types/api does not declare
  \<^verbatim>\<open>mounts\<close>, but the mining planner reads \<^verbatim>\<open>ship.mounts\<close> of the snapshot the
  service returns; the snapshot is taken to carry the list.
\<close>

record Ship =
  ship_symbol :: string
  nav_systemSymbol :: string
  nav_waypointSymbol :: string
  nav_status :: nav_status
  cargo_capacity :: int
  cargo_units :: int
  cargo_inventory :: "CargoItem list"
  fuel_current :: int
  fuel_capacity :: int
  cooldown_remainingSeconds :: "int option"
  mounts :: "string list"

record ContractDeliverGood =
  tradeSymbol :: string
  destinationSymbol :: string
  unitsRequired :: int
  unitsFulfilled :: int

record Contract =
  contract_id :: string
  contract_type :: string
  accepted :: bool
  fulfilled :: bool
  terms_deliver :: "ContractDeliverGood list option"

subsection \<open>Policy, automation state and action steps\<close>

record MiningPolicy =
  autoSellWhenFull :: bool
  minFuelPercent :: rat
  maxCredits :: rat
  preferredMarkets :: "string list"
  stop_maxCargo :: bool
  stop_lowFuel :: bool
  stop_creditLimit :: bool

record TradingPolicy =
  maxBuyPriceDeviation :: rat
  minProfitMargin :: rat
  reserveCredits :: rat
  maxDistance :: rat

record ContractPolicy =
  autoAccept :: bool
  priorityTypes :: "string list"
  maxDeadlineDays :: rat
  minReward :: rat

record AutomationPolicy =
  mining :: MiningPolicy
  trading :: TradingPolicy
  contract :: ContractPolicy

datatype behavior_kind = Mining | Trading | ContractB | Idle

datatype run_status = Running | Paused | Stopped | Error

text \<open>
  \<^verbatim>\<open>lastAction\<close> is a \<^verbatim>\<open>Date\<close> when the orchestrator writes it (\<^verbatim>\<open>new Date()\<close>, an
  instant in milliseconds since the epoch). \<^verbatim>\<open>JSON.stringify\<close> replaces a \<^verbatim>\<open>Date\<close> by
  its ISO-8601 text, which has millisecond precision, and \<^verbatim>\<open>JSON.parse\<close> returns that
  text as a string: \<open>DateString t\<close> stands for the ISO text of the instant \<open>t\<close>.
  A \<^verbatim>\<open>number\<close> field holds \<^verbatim>\<open>null\<close> after parsing when the number written was not
  finite.
\<close>

datatype date_value = DateObj int | DateString int

datatype number_value = Number jsnum | Null

record AutomationState =
  shipSymbol :: string
  behavior :: behavior_kind
  status :: run_status
  currentTask :: string
  progress :: number_value
  lastAction :: date_value
  errorMessage :: "string option"
  policy :: AutomationPolicy

datatype action_type =
  Navigate | Dock | Orbit | Refuel | Extract | Survey | Sell | Buy | Deliver

record DeliverPayload =
  p_contractId :: string
  p_tradeSymbol :: string
  p_units :: int
  p_destinationSymbol :: string

record ActionStep =
  type :: action_type
  target :: "string option"
  payload :: "DeliverPayload option"
  retries :: nat
  maxRetries :: nat

fun type_name :: "action_type \<Rightarrow> string" where
  "type_name Navigate = ''navigate''"
| "type_name Dock = ''dock''"
| "type_name Orbit = ''orbit''"
| "type_name Refuel = ''refuel''"
| "type_name Extract = ''extract''"
| "type_name Survey = ''survey''"
| "type_name Sell = ''sell''"
| "type_name Buy = ''buy''"
| "type_name Deliver = ''deliver''"

subsection \<open>The remote service\<close>

text \<open>
  The calls of the \<^verbatim>\<open>spaceTraders\<close> service that concern a ship or a contract. The
  service has no call that delivers cargo to a contract.
\<close>

datatype gateway_call =
    GetShip string
  | GetContracts
  | AcceptContract string
  | NavigateShip string string
  | DockShip string
  | OrbitShip string
  | RefuelShip string
  | ExtractResources string
  | CreateSurvey string
  | Jettison string string int
  | SellCargo string string int
  | PurchaseCargo string string int

subsection \<open>executeAction\<close>

text \<open>
  \<open>gw c\<close> says whether the call \<open>c\<close> returns (\<open>True\<close>) or throws. The whole body of
  \<^verbatim>\<open>executeAction\<close> is inside \<^verbatim>\<open>try\<close>: a call that throws makes the result
  \<^verbatim>\<open>false\<close>. The result is the boolean together with the calls made, in order.
\<close>

fun sell_loop :: "(gateway_call \<Rightarrow> bool) \<Rightarrow> string \<Rightarrow> CargoItem list \<Rightarrow> bool \<times> gateway_call list" where
  "sell_loop gw sid [] = (True, [])"
| "sell_loop gw sid (i # rest) =
     (let c = SellCargo sid (item_symbol i) (item_units i) in
      if gw c then (case sell_loop gw sid rest of (b, cs) \<Rightarrow> (b, c # cs))
      else (False, [c]))"

text \<open>
  \<^verbatim>\<open>if (action.target)\<close>: an absent target and the empty string are both falsy, and
  then no call is made.
\<close>

definition executeAction :: "(gateway_call \<Rightarrow> bool) \<Rightarrow> Ship \<Rightarrow> ActionStep \<Rightarrow> bool \<times> gateway_call list" where
  "executeAction gw ship action =
     (case type action of
        Navigate \<Rightarrow>
          (case target action of
             Some t \<Rightarrow>
               if t \<noteq> []
               then (gw (NavigateShip (ship_symbol ship) t), [NavigateShip (ship_symbol ship) t])
               else (False, [])
           | None \<Rightarrow> (False, []))
      | Dock \<Rightarrow>
          if nav_status ship \<noteq> DOCKED
          then (gw (DockShip (ship_symbol ship)), [DockShip (ship_symbol ship)])
          else (True, [])
      | Orbit \<Rightarrow>
          if nav_status ship \<noteq> IN_ORBIT
          then (gw (OrbitShip (ship_symbol ship)), [OrbitShip (ship_symbol ship)])
          else (True, [])
      | Refuel \<Rightarrow>
          if nav_status ship = DOCKED
          then (gw (RefuelShip (ship_symbol ship)), [RefuelShip (ship_symbol ship)])
          else (False, [])
      | Extract \<Rightarrow>
          if nav_status ship = IN_ORBIT
          then (gw (ExtractResources (ship_symbol ship)), [ExtractResources (ship_symbol ship)])
          else (False, [])
      | Survey \<Rightarrow>
          if nav_status ship = IN_ORBIT
          then (gw (CreateSurvey (ship_symbol ship)), [CreateSurvey (ship_symbol ship)])
          else (False, [])
      | Sell \<Rightarrow>
          if nav_status ship = DOCKED \<and> cargo_units ship > 0
          then sell_loop gw (ship_symbol ship) (cargo_inventory ship)
          else (False, [])
      | _ \<Rightarrow> (False, []))"

subsection \<open>Planning\<close>

text \<open>The object literal \<^verbatim>\<open>{ type, target, retries: 0, maxRetries }\<close> pushed by the planners.\<close>

definition new_step :: "action_type \<Rightarrow> string option \<Rightarrow> nat \<Rightarrow> ActionStep" where
  "new_step ty tg mx = \<lparr>type = ty, target = tg, payload = None, retries = 0, maxRetries = mx\<rparr>"

text \<open>
  A planner receives the state object and the queue array and mutates both; here it
  returns the pair of the state and the queue after the call.
\<close>

definition planSellActions :: "Ship \<Rightarrow> AutomationState \<Rightarrow> ActionStep list \<Rightarrow> AutomationState \<times> ActionStep list" where
  "planSellActions ship state queue =
     (if cargo_units ship = 0 then (state, queue)
      else
        (state\<lparr>currentTask := ''Navigating to market to sell cargo''\<rparr>,
         queue @ [new_step Navigate (Some (nav_systemSymbol ship @ ''-MARKETPLACE-1'')) 3,
                  new_step Dock None 3,
                  new_step Sell None 3]))"

definition cargoFull :: "Ship \<Rightarrow> bool" where
  "cargoFull ship = (of_int (cargo_units ship) \<ge> (of_int (cargo_capacity ship) :: rat) * (9 / 10))"

definition fuelLow :: "Ship \<Rightarrow> rat \<Rightarrow> bool" where
  "fuelLow ship minPercent =
     js_less (js_times (js_div (fuel_current ship) (fuel_capacity ship)) 100) minPercent"

definition isAtAsteroid :: "Ship \<Rightarrow> bool" where
  "isAtAsteroid ship =
     (str_includes (nav_waypointSymbol ship) ''ASTEROID'' \<or>
      str_includes (nav_waypointSymbol ship) ''ENGINEERED_ASTEROID'')"

definition planMiningActions :: "Ship \<Rightarrow> AutomationState \<Rightarrow> ActionStep list \<Rightarrow> AutomationState \<times> ActionStep list" where
  "planMiningActions ship state queue =
     (let pol = mining (policy state) in
      if stop_maxCargo pol \<and> cargoFull ship then
        (if autoSellWhenFull pol
         then planSellActions ship (state\<lparr>currentTask := ''Cargo full, finding market to sell''\<rparr>) queue
         else (state\<lparr>status := Paused, currentTask := ''Cargo full, automation paused''\<rparr>, queue))
      else if stop_lowFuel pol \<and> fuelLow ship (minFuelPercent pol) then
        (state\<lparr>currentTask := ''Low fuel, need to refuel''\<rparr>,
         queue @ [new_step Dock None 3, new_step Refuel None 3, new_step Orbit None 3])
      else if \<not> isAtAsteroid ship then
        (state\<lparr>currentTask := ''Navigating to mining location''\<rparr>,
         queue @ [new_step Navigate (Some (nav_systemSymbol ship @ ''-ASTEROID-1'')) 3,
                  new_step Orbit None 3])
      else
        (let queue1 = (if nav_status ship \<noteq> IN_ORBIT then queue @ [new_step Orbit None 3] else queue);
             state1 = state\<lparr>currentTask := ''Mining resources'',
                            progress := Number (js_times (js_div (cargo_units ship) (cargo_capacity ship)) 100)\<rparr>;
             queue2 = (if list_ex (\<lambda>m. str_includes m ''SURVEYOR'') (mounts ship)
                       then queue1 @ [new_step Survey None 2] else queue1)
         in (state1, queue2 @ [new_step Extract None 3])))"

definition planTradingActions :: "Ship \<Rightarrow> AutomationState \<Rightarrow> ActionStep list \<Rightarrow> AutomationState \<times> ActionStep list" where
  "planTradingActions ship state queue =
     (let state1 = state\<lparr>currentTask := ''Analyzing trade opportunities''\<rparr> in
      if cargo_units ship > 0 then planSellActions ship state1 queue
      else (state1\<lparr>currentTask := ''No cargo to trade'', status := Paused\<rparr>, queue))"

text \<open>
  The loop over \<^verbatim>\<open>activeContract.terms.deliver || []\<close>.
  \<^verbatim>\<open>cargoItem?.units || 0\<close> is \<open>0\<close> when no item of the inventory has the trade symbol.
\<close>

definition availableUnits :: "Ship \<Rightarrow> string \<Rightarrow> int" where
  "availableUnits ship sy =
     (case find (\<lambda>item. item_symbol item = sy) (cargo_inventory ship) of
        None \<Rightarrow> 0 | Some item \<Rightarrow> item_units item)"

fun planDeliverables ::
  "string \<Rightarrow> Ship \<Rightarrow> ContractDeliverGood list \<Rightarrow> AutomationState \<Rightarrow> ActionStep list
    \<Rightarrow> AutomationState \<times> ActionStep list" where
  "planDeliverables cid ship [] state queue = (state, queue)"
| "planDeliverables cid ship (d # ds) state queue =
     (let needed = unitsRequired d - unitsFulfilled d in
      if needed > 0 then
        (if availableUnits ship (tradeSymbol d) > 0 then
           planDeliverables cid ship ds state
             (queue @ [new_step Navigate (Some (destinationSymbol d)) 3,
                       new_step Dock None 3,
                       \<lparr>type = Deliver, target = None,
                        payload = Some \<lparr>p_contractId = cid, p_tradeSymbol = tradeSymbol d,
                                        p_units = min needed (availableUnits ship (tradeSymbol d)),
                                        p_destinationSymbol = destinationSymbol d\<rparr>,
                        retries = 0, maxRetries = 3\<rparr>])
         else
           planDeliverables cid ship ds
             (state\<lparr>currentTask := ''Need to acquire '' @ tradeSymbol d @ '' for contract'',
                    status := Paused\<rparr>) queue)
      else planDeliverables cid ship ds state queue)"

text \<open>
  \<open>contracts\<close> is what \<^verbatim>\<open>spaceTraders.getContracts()\<close> gives: \<open>None\<close> when the call
  throws, which the planner's own \<^verbatim>\<open>catch\<close> turns into the status \<^verbatim>\<open>error\<close>.
\<close>

definition planContractActions ::
  "Contract list option \<Rightarrow> Ship \<Rightarrow> AutomationState \<Rightarrow> ActionStep list \<Rightarrow> AutomationState \<times> ActionStep list" where
  "planContractActions contracts ship state queue =
     (let state1 = state\<lparr>currentTask := ''Checking active contracts''\<rparr> in
      case contracts of
        None \<Rightarrow> (state1\<lparr>status := Error, errorMessage := Some ''Failed to plan contract actions''\<rparr>, queue)
      | Some cs \<Rightarrow>
          (case find (\<lambda>c. accepted c \<and> \<not> fulfilled c) cs of
             None \<Rightarrow> (state1\<lparr>currentTask := ''No active contracts'', status := Paused\<rparr>, queue)
           | Some activeContract \<Rightarrow>
               planDeliverables (contract_id activeContract) ship
                 (case terms_deliver activeContract of None \<Rightarrow> [] | Some ds \<Rightarrow> ds)
                 (state1\<lparr>currentTask := ''Working on contract: '' @ contract_type activeContract\<rparr>)
                 queue))"

subsection \<open>The orchestrator\<close>

text \<open>
  A JavaScript \<^verbatim>\<open>Map\<close> keeps its keys in insertion order; \<^verbatim>\<open>set\<close> on a key that is
  present replaces the value in place.
\<close>

fun map_set :: "'k \<Rightarrow> 'v \<Rightarrow> ('k \<times> 'v) list \<Rightarrow> ('k \<times> 'v) list" where
  "map_set k v [] = [(k, v)]"
| "map_set k v ((k', v') # m) = (if k' = k then (k, v) # m else (k', v') # map_set k v m)"

definition map_get :: "('k \<times> 'v) list \<Rightarrow> 'k \<Rightarrow> 'v option" where
  "map_get m k = map_of m k"

definition map_values :: "('k \<times> 'v) list \<Rightarrow> 'v list" where
  "map_values m = map snd m"

definition new_Map :: "('k \<times> 'v) list \<Rightarrow> ('k \<times> 'v) list" where
  "new_Map entries = fold (\<lambda>(k, v) m. map_set k v m) entries []"

text \<open>
  The item \<^verbatim>\<open>spacetraders_automation_states\<close> of \<^verbatim>\<open>localStorage\<close>: absent, a text from
  which \<^verbatim>\<open>loadStates\<close> cannot build the map (its \<^verbatim>\<open>catch\<close> logs and returns), or a text
  that \<^verbatim>\<open>JSON.parse\<close> reads as an array of state objects.
\<close>

datatype stored = NoItem | Unreadable | Saved "AutomationState list"

record Orchestrator =
  automationStates :: "(string \<times> AutomationState) list"
  actionQueues :: "(string \<times> ActionStep list) list"
  isRunning :: bool
  storage :: stored

text \<open>
  What \<^verbatim>\<open>JSON.parse\<close> returns for the text \<^verbatim>\<open>JSON.stringify\<close> writes for one state
  object: strings, booleans, finite numbers, arrays and nested objects come back equal, an
  absent \<^verbatim>\<open>errorMessage\<close> stays absent, a \<^verbatim>\<open>Date\<close> comes back as its ISO text, and a
  number that is not finite comes back as \<^verbatim>\<open>null\<close>. The policy's numbers are finite.
  \<^verbatim>\<open>localStorage.setItem\<close> is taken to succeed (\<^verbatim>\<open>saveStates\<close> catches and logs a
  failure, and then the item keeps its old text).
\<close>

fun json_number :: "number_value \<Rightarrow> number_value" where
  "json_number (Number (Fin x)) = Number (Fin x)"
| "json_number (Number PosInf) = Null"
| "json_number (Number NegInf) = Null"
| "json_number (Number NaN) = Null"
| "json_number Null = Null"

fun json_date :: "date_value \<Rightarrow> date_value" where
  "json_date (DateObj t) = DateString t"
| "json_date (DateString t) = DateString t"

definition parse_stringify :: "AutomationState \<Rightarrow> AutomationState" where
  "parse_stringify s = s\<lparr>progress := json_number (progress s), lastAction := json_date (lastAction s)\<rparr>"

definition loadStates :: "Orchestrator \<Rightarrow> Orchestrator" where
  "loadStates orc =
     (case storage orc of
        Saved states \<Rightarrow> orc\<lparr>automationStates := new_Map (map (\<lambda>s. (shipSymbol s, s)) states)\<rparr>
      | _ \<Rightarrow> orc)"

definition saveStates :: "Orchestrator \<Rightarrow> Orchestrator" where
  "saveStates orc =
     orc\<lparr>storage := Saved (map parse_stringify (map_values (automationStates orc)))\<rparr>"

text \<open>The constructor: both maps empty, the tick loop not running, then \<^verbatim>\<open>loadStates\<close>.\<close>

definition new_AutomationOrchestrator :: "stored \<Rightarrow> Orchestrator" where
  "new_AutomationOrchestrator st =
     loadStates \<lparr>automationStates = [], actionQueues = [], isRunning = False, storage = st\<rparr>"

text \<open>
  A state object is shared between the map and the code that holds a reference to it: an
  assignment to a field of the object is an update of the map's entry. A method that
  fetched the object with \<^verbatim>\<open>get(shipSymbol)\<close> updates the entry under that key
  (\<open>set_state\<close>). \<^verbatim>\<open>processShipAutomation\<close> receives the object itself; every entry of
  the map is stored under the \<^verbatim>\<open>shipSymbol\<close> of its object (by \<^verbatim>\<open>startAutomation\<close> and
  by \<^verbatim>\<open>loadStates\<close>), so there the entry is the one under the object's own symbol
  (\<open>put_state\<close>).
\<close>

definition set_state :: "string \<Rightarrow> AutomationState \<Rightarrow> Orchestrator \<Rightarrow> Orchestrator" where
  "set_state sy state orc = orc\<lparr>automationStates := map_set sy state (automationStates orc)\<rparr>"

definition put_state :: "AutomationState \<Rightarrow> Orchestrator \<Rightarrow> Orchestrator" where
  "put_state state orc = set_state (shipSymbol state) state orc"

definition defaultPolicy :: AutomationPolicy where
  "defaultPolicy =
     \<lparr>mining = \<lparr>autoSellWhenFull = True, minFuelPercent = 10, maxCredits = 1000000,
                 preferredMarkets = [], stop_maxCargo = True, stop_lowFuel = True,
                 stop_creditLimit = False\<rparr>,
      trading = \<lparr>maxBuyPriceDeviation = 10, minProfitMargin = 15, reserveCredits = 100000,
                  maxDistance = 50\<rparr>,
      contract = \<lparr>autoAccept = False, priorityTypes = [''PROCUREMENT'', ''TRANSPORT''],
                   maxDeadlineDays = 30, minReward = 50000\<rparr>\<rparr>"

text \<open>
  \<^verbatim>\<open>Partial<AutomationPolicy>\<close>: each of the three sections is given or not, and the
  spread \<^verbatim>\<open>{ ...defaultPolicy, ...policy }\<close> replaces a given section as a whole. An
  omitted argument gives no section.
\<close>

record PolicyOverrides =
  ov_mining :: "MiningPolicy option"
  ov_trading :: "TradingPolicy option"
  ov_contract :: "ContractPolicy option"

definition mergePolicy :: "AutomationPolicy \<Rightarrow> PolicyOverrides \<Rightarrow> AutomationPolicy" where
  "mergePolicy d ov =
     \<lparr>mining = (case ov_mining ov of None \<Rightarrow> mining d | Some m \<Rightarrow> m),
      trading = (case ov_trading ov of None \<Rightarrow> trading d | Some t \<Rightarrow> t),
      contract = (case ov_contract ov of None \<Rightarrow> contract d | Some c \<Rightarrow> c)\<rparr>"

definition start :: "Orchestrator \<Rightarrow> Orchestrator" where
  "start orc = (if isRunning orc then orc else orc\<lparr>isRunning := True\<rparr>)"

text \<open>\<open>now\<close> is the instant \<^verbatim>\<open>new Date()\<close> reads.\<close>

definition startAutomation ::
  "int \<Rightarrow> string \<Rightarrow> behavior_kind \<Rightarrow> PolicyOverrides \<Rightarrow> Orchestrator \<Rightarrow> Orchestrator" where
  "startAutomation now sy beh ov orc =
     (let state = \<lparr>shipSymbol = sy, behavior = beh, status = Running,
                   currentTask = ''Initializing automation'', progress = Number (Fin 0),
                   lastAction = DateObj now, errorMessage = None,
                   policy = mergePolicy defaultPolicy ov\<rparr>;
          orc1 = orc\<lparr>automationStates := map_set sy state (automationStates orc),
                     actionQueues := map_set sy [] (actionQueues orc)\<rparr>;
          orc2 = saveStates orc1
      in if \<not> isRunning orc2 then start orc2 else orc2)"

definition stopAutomation :: "string \<Rightarrow> Orchestrator \<Rightarrow> Orchestrator" where
  "stopAutomation sy orc =
     (case map_get (automationStates orc) sy of
        Some state \<Rightarrow> saveStates (set_state sy (state\<lparr>status := Stopped, currentTask := ''Stopped''\<rparr>) orc)
      | None \<Rightarrow> orc)"

definition pauseAutomation :: "string \<Rightarrow> Orchestrator \<Rightarrow> Orchestrator" where
  "pauseAutomation sy orc =
     (case map_get (automationStates orc) sy of
        Some state \<Rightarrow> saveStates (set_state sy (state\<lparr>status := Paused, currentTask := ''Paused''\<rparr>) orc)
      | None \<Rightarrow> orc)"

definition resumeAutomation :: "string \<Rightarrow> Orchestrator \<Rightarrow> Orchestrator" where
  "resumeAutomation sy orc =
     (case map_get (automationStates orc) sy of
        Some state \<Rightarrow>
          if status state = Paused
          then saveStates (set_state sy (state\<lparr>status := Running, currentTask := ''Resuming''\<rparr>) orc)
          else orc
      | None \<Rightarrow> orc)"

definition getAutomationState :: "Orchestrator \<Rightarrow> string \<Rightarrow> AutomationState option" where
  "getAutomationState orc sy = map_get (automationStates orc) sy"

definition getAllAutomationStates :: "Orchestrator \<Rightarrow> AutomationState list" where
  "getAllAutomationStates orc = map_values (automationStates orc)"

text \<open>\<^verbatim>\<open>this.actionQueues.get(state.shipSymbol) || []\<close>\<close>

definition queue_of :: "Orchestrator \<Rightarrow> string \<Rightarrow> ActionStep list" where
  "queue_of orc sy = (case map_get (actionQueues orc) sy of None \<Rightarrow> [] | Some q \<Rightarrow> q)"

subsection \<open>One tick for one ship\<close>

text \<open>
  What the environment answers while one ship is processed: the ship snapshot of
  \<^verbatim>\<open>getShip\<close> (or the message of the error it throws), whether each action call
  succeeds, the contracts of \<^verbatim>\<open>getContracts\<close> (or \<open>None\<close> when it throws), and the
  clock.
\<close>

record tick_env =
  getShip_result :: "string + Ship"
  gw_ok :: "gateway_call \<Rightarrow> bool"
  getContracts_result :: "Contract list option"
  clock :: int

text \<open>\<^verbatim>\<open>action.retries++\<close>\<close>

definition countRetry :: "ActionStep \<Rightarrow> ActionStep" where
  "countRetry action = action\<lparr>retries := retries action + 1\<rparr>"

text \<open>
  The block \<^verbatim>\<open>if (queue.length > 0) { ... }\<close> of \<^verbatim>\<open>processShipAutomation\<close>: the state,
  the queue and the calls made after it.
\<close>

definition processActionQueue ::
  "tick_env \<Rightarrow> Ship \<Rightarrow> AutomationState \<Rightarrow> ActionStep list
    \<Rightarrow> AutomationState \<times> ActionStep list \<times> gateway_call list" where
  "processActionQueue env ship state queue =
     (case queue of
        [] \<Rightarrow> (state, [], [])
      | action # rest \<Rightarrow>
          (case executeAction (gw_ok env) ship action of
             (success, calls) \<Rightarrow>
               if success then (state\<lparr>lastAction := DateObj (clock env)\<rparr>, rest, calls)
               else if retries (countRetry action) \<ge> maxRetries (countRetry action) then
                 (state\<lparr>errorMessage :=
                     Some (''Action '' @ type_name (type (countRetry action)) @ '' failed after ''
                           @ string_of_nat (maxRetries (countRetry action)) @ '' retries'')\<rparr>,
                  rest, calls)
               else (state, countRetry action # rest, calls)))"

text \<open>
  \<^verbatim>\<open>planNextActions\<close> reads the ship's queue from the map, lets the planner of the
  state's behavior extend it (no planner for \<^verbatim>\<open>idle\<close>) and stores it under the ship's
  symbol. The contract planner calls \<^verbatim>\<open>getContracts\<close>.
\<close>

definition planNextActions ::
  "tick_env \<Rightarrow> Ship \<Rightarrow> AutomationState \<Rightarrow> Orchestrator
    \<Rightarrow> AutomationState \<times> Orchestrator \<times> gateway_call list" where
  "planNextActions env ship state orc =
     (let queue = queue_of orc (shipSymbol state) in
      case (case behavior state of
              Mining \<Rightarrow> (planMiningActions ship state queue, [])
            | Trading \<Rightarrow> (planTradingActions ship state queue, [])
            | ContractB \<Rightarrow> (planContractActions (getContracts_result env) ship state queue, [GetContracts])
            | Idle \<Rightarrow> ((state, queue), [])) of
        ((state', queue'), calls) \<Rightarrow>
          (state',
           orc\<lparr>actionQueues := map_set (shipSymbol state) queue' (actionQueues orc)\<rparr>,
           calls))"

text \<open>
  The result of \<^verbatim>\<open>processShipAutomation\<close>: the orchestrator after it, the message of the
  error it throws (only \<^verbatim>\<open>getShip\<close> can throw out of it), the remote calls in order,
  the step handed to \<^verbatim>\<open>executeAction\<close> if there was one, and whether
  \<^verbatim>\<open>planNextActions\<close> was invoked.
\<close>

record proc_result =
  r_orch :: Orchestrator
  r_thrown :: "string option"
  r_calls :: "gateway_call list"
  r_executed :: "ActionStep option"
  r_planned :: bool

text \<open>
  \<^verbatim>\<open>ship.cooldown && ship.cooldown.remainingSeconds > 0\<close>: the remaining seconds when
  the ship has an active cooldown.
\<close>

definition activeCooldown :: "Ship \<Rightarrow> int option" where
  "activeCooldown ship =
     (case cooldown_remainingSeconds ship of
        None \<Rightarrow> None
      | Some r \<Rightarrow> if r > 0 then Some r else None)"

definition processShipAutomation :: "tick_env \<Rightarrow> AutomationState \<Rightarrow> Orchestrator \<Rightarrow> proc_result" where
  "processShipAutomation env state orc =
     (case getShip_result env of
        Inl msg \<Rightarrow>
          \<lparr>r_orch = orc, r_thrown = Some msg, r_calls = [GetShip (shipSymbol state)],
           r_executed = None, r_planned = False\<rparr>
      | Inr ship \<Rightarrow>
          (let queue = queue_of orc (shipSymbol state) in
           case activeCooldown ship of
             Some r \<Rightarrow>
               \<lparr>r_orch = saveStates (put_state
                    (state\<lparr>currentTask := ''Waiting for cooldown ('' @ string_of_int r @ ''s)''\<rparr>) orc),
                r_thrown = None, r_calls = [GetShip (shipSymbol state)],
                r_executed = None, r_planned = False\<rparr>
           | None \<Rightarrow>
             (case processActionQueue env ship state queue of
                (state1, queue1, calls1) \<Rightarrow>
                  (let orc1 = (if queue \<noteq> []
                               then orc\<lparr>actionQueues := map_set (shipSymbol state) queue1 (actionQueues orc)\<rparr>
                               else orc)
                   in if queue1 = [] then
                        (case planNextActions env ship state1 orc1 of
                           (state2, orc2, calls2) \<Rightarrow>
                             \<lparr>r_orch = saveStates (put_state state2 orc2), r_thrown = None,
                              r_calls = GetShip (shipSymbol state) # calls1 @ calls2,
                              r_executed = (case queue of [] \<Rightarrow> None | a # _ \<Rightarrow> Some a),
                              r_planned = True\<rparr>)
                      else
                        \<lparr>r_orch = saveStates (put_state state1 orc1), r_thrown = None,
                         r_calls = GetShip (shipSymbol state) # calls1,
                         r_executed = (case queue of [] \<Rightarrow> None | a # _ \<Rightarrow> Some a),
                         r_planned = False\<rparr>))))"

subsection \<open>The tick\<close>

text \<open>
  \<^verbatim>\<open>tick\<close> takes the states whose status is \<^verbatim>\<open>running\<close> and processes them one after
  another; an error thrown while one is processed is caught, sets that state's status to
  \<^verbatim>\<open>error\<close> with the error's message, and the loop goes on. \<open>envs\<close> gives the
  environment's answers for each ship.
\<close>

definition tickShip :: "(string \<Rightarrow> tick_env) \<Rightarrow> AutomationState \<Rightarrow> Orchestrator \<Rightarrow> Orchestrator" where
  "tickShip envs state orc =
     (let res = processShipAutomation (envs (shipSymbol state)) state orc in
      case r_thrown res of
        None \<Rightarrow> r_orch res
      | Some msg \<Rightarrow>
          saveStates (put_state (state\<lparr>status := Error, errorMessage := Some msg\<rparr>) (r_orch res)))"

definition tick :: "(string \<Rightarrow> tick_env) \<Rightarrow> Orchestrator \<Rightarrow> Orchestrator" where
  "tick envs orc =
     fold (tickShip envs)
       (filter (\<lambda>state. status state = Running) (map_values (automationStates orc))) orc"

section \<open>Concrete inputs\<close>

text \<open>A ship docked at an asteroid, with full fuel and an empty hold.\<close>

definition dockedShip :: Ship where
  "dockedShip =
     \<lparr>ship_symbol = ''SHIP-1'', nav_systemSymbol = ''X1-AB'', nav_waypointSymbol = ''X1-AB-ASTEROID-1'',
      nav_status = DOCKED, cargo_capacity = 40, cargo_units = 0, cargo_inventory = [],
      fuel_current = 100, fuel_capacity = 100, cooldown_remainingSeconds = None, mounts = []\<rparr>"

text \<open>
  A mining automation as \<open>startAutomation\<close> creates it with no policy override, and a ship
  away from any asteroid with fuel 100/100 and cargo 0/40 that carries a surveyor mount.
\<close>

definition miningState :: AutomationState where
  "miningState =
     \<lparr>shipSymbol = ''SHIP-1'', behavior = Mining, status = Running,
      currentTask = ''Initializing automation'', progress = Number (Fin 0),
      lastAction = DateObj 0, errorMessage = None, policy = defaultPolicy\<rparr>"

definition stationShip :: Ship where
  "stationShip =
     \<lparr>ship_symbol = ''SHIP-1'', nav_systemSymbol = ''X1-AB'', nav_waypointSymbol = ''X1-AB-STATION-7'',
      nav_status = IN_ORBIT, cargo_capacity = 40, cargo_units = 0, cargo_inventory = [],
      fuel_current = 100, fuel_capacity = 100, cooldown_remainingSeconds = None,
      mounts = [''MOUNT_SURVEYOR_I'']\<rparr>"



text \<open>
  A trading automation started on a fresh orchestrator and ticked once while the ship's
  hold is empty: the trading planner pauses it with the task \<^verbatim>\<open>No cargo to trade\<close>.
\<close>

definition noOverrides :: PolicyOverrides where
  "noOverrides = \<lparr>ov_mining = None, ov_trading = None, ov_contract = None\<rparr>"

definition calmEnv :: "Ship \<Rightarrow> tick_env" where
  "calmEnv ship =
     \<lparr>getShip_result = Inr ship, gw_ok = (\<lambda>c. True), getContracts_result = Some [], clock = 5000\<rparr>"

definition tradingOrc :: Orchestrator where
  "tradingOrc =
     tick (\<lambda>sy. calmEnv stationShip)
       (startAutomation 0 ''SHIP-1'' Trading noOverrides (new_AutomationOrchestrator NoItem))"

text \<open>
  A mining automation started on a fresh orchestrator; the same automation after
  \<open>stopAutomation\<close>; and the same automation after a tick in which \<^verbatim>\<open>getShip\<close> throws.
\<close>

definition miningOrc :: Orchestrator where
  "miningOrc = startAutomation 0 ''SHIP-1'' Mining noOverrides (new_AutomationOrchestrator NoItem)"




section \<open>Runs of the orchestrator\<close>

text \<open>
  What can happen to an orchestrator after its construction: a call of one of its public
  methods, or a tick of its timer with some answers of the environment. Each is taken as
  one step: a method call that arrives while a tick is suspended in a remote call, and a
  tick that starts before the previous one has finished, are not part of the model.
\<close>

datatype command =
    Start int string behavior_kind PolicyOverrides
  | Stop string
  | Pause string
  | Resume string
  | Tick "string \<Rightarrow> tick_env"

fun run :: "command \<Rightarrow> Orchestrator \<Rightarrow> Orchestrator" where
  "run (Start now sy beh ov) orc = startAutomation now sy beh ov orc"
| "run (Stop sy) orc = stopAutomation sy orc"
| "run (Pause sy) orc = pauseAutomation sy orc"
| "run (Resume sy) orc = resumeAutomation sy orc"
| "run (Tick envs) orc = tick envs orc"

inductive reachable :: "Orchestrator \<Rightarrow> bool" where
  constructed: "reachable (new_AutomationOrchestrator st)"
| ran: "reachable orc \<Longrightarrow> reachable (run c orc)"


text \<open>Every entry of the state map is stored under its object's symbol, once.\<close>

definition keyed_by_symbol :: "(string \<times> AutomationState) list \<Rightarrow> bool" where
  "keyed_by_symbol m = ((\<forall>(k, s) \<in> set m. shipSymbol s = k) \<and> distinct (map fst m))"


text \<open>
  The mining automation after one tick at the station: the planner has queued navigate and
  orbit.
\<close>

definition plannedOrc :: Orchestrator where
  "plannedOrc = tick (\<lambda>sy. calmEnv stationShip) miningOrc"

text \<open>The instant a \<^verbatim>\<open>lastAction\<close> value denotes, as a \<^verbatim>\<open>Date\<close> or as ISO text.\<close>

fun instant :: "date_value \<Rightarrow> int" where
  "instant (DateObj t) = t"
| "instant (DateString t) = t"

text \<open>
  A mining automation started with \<open>autoSellWhenFull\<close> switched off, on a ship that stays
  docked at an asteroid. The first tick plans orbit and extract, the second executes orbit;
  the gateway keeps reporting the ship docked, now with 38 of 40 cargo units, and the
  extract step fails in the third and fourth tick.
\<close>

definition noAutoSell :: PolicyOverrides where
  "noAutoSell =
     \<lparr>ov_mining = Some ((mining defaultPolicy)\<lparr>autoSellWhenFull := False\<rparr>),
      ov_trading = None, ov_contract = None\<rparr>"

definition dockedFullShip :: Ship where
  "dockedFullShip =
     dockedShip\<lparr>cargo_units := 38,
                 cargo_inventory := [\<lparr>item_symbol = ''IRON_ORE'', item_units = 38\<rparr>]\<rparr>"

definition retryOrc :: Orchestrator where
  "retryOrc =
     fold run
       [Start 0 ''SHIP-1'' Mining noAutoSell,
        Tick (\<lambda>sy. calmEnv dockedShip), Tick (\<lambda>sy. calmEnv dockedShip),
        Tick (\<lambda>sy. calmEnv dockedFullShip), Tick (\<lambda>sy. calmEnv dockedFullShip)]
       (new_AutomationOrchestrator NoItem)"

definition retryState :: AutomationState where
  "retryState =
     \<lparr>shipSymbol = ''SHIP-1'', behavior = Mining, status = Running,
      currentTask = ''Mining resources'', progress = Number (Fin 0),
      lastAction = DateObj 5000, errorMessage = None,
      policy = defaultPolicy\<lparr>mining := (mining defaultPolicy)\<lparr>autoSellWhenFull := False\<rparr>\<rparr>\<rparr>"

text \<open>
  The same automation two ticks earlier, when the extract step has not failed yet; and a
  run in which the gateway rejects the orbit call twice, so that the orbit step at the head
  of the queue has one retry left and the extract step waits behind it.
\<close>

definition freshOrc :: Orchestrator where
  "freshOrc =
     fold run
       [Start 0 ''SHIP-1'' Mining noAutoSell,
        Tick (\<lambda>sy. calmEnv dockedShip), Tick (\<lambda>sy. calmEnv dockedShip)]
       (new_AutomationOrchestrator NoItem)"

definition rejectingEnv :: "Ship \<Rightarrow> tick_env" where
  "rejectingEnv ship = (calmEnv ship)\<lparr>gw_ok := (\<lambda>c. False)\<rparr>"

definition orbitOrc :: Orchestrator where
  "orbitOrc =
     fold run
       [Start 0 ''SHIP-1'' Mining noAutoSell,
        Tick (\<lambda>sy. calmEnv dockedShip),
        Tick (\<lambda>sy. rejectingEnv dockedShip), Tick (\<lambda>sy. rejectingEnv dockedShip)]
       (new_AutomationOrchestrator NoItem)"

text \<open>The ship in orbit at the asteroid.\<close>

definition orbitingShip :: Ship where
  "orbitingShip = dockedShip\<lparr>nav_status := IN_ORBIT\<rparr>"






text \<open>
  Every step of the queue has retries left; and every queue of the orchestrator is such.
\<close>

definition within_budget :: "ActionStep list \<Rightarrow> bool" where
  "within_budget q = (\<forall>a \<in> set q. retries a < maxRetries a)"

definition queues_within_budget :: "Orchestrator \<Rightarrow> bool" where
  "queues_within_budget orc = (\<forall>(k, q) \<in> set (actionQueues orc). within_budget q)"

section \<open>Properties of action execution\<close>


lemma executeAction_needs_orbit:
  "type action = Extract \<or> type action = Survey \<Longrightarrow> nav_status ship \<noteq> IN_ORBIT
    \<Longrightarrow> executeAction gw ship action = (False, [])"
  by (auto simp: executeAction_def)

lemma executeAction_needs_dock:
  "type action = Refuel \<or> type action = Sell \<Longrightarrow> nav_status ship \<noteq> DOCKED
    \<Longrightarrow> executeAction gw ship action = (False, [])"
  by (auto simp: executeAction_def)

text \<open>
  Claim C8. A step whose precondition on the ship's nav status is unmet (extract or survey
  while the ship is not in orbit, refuel or sell while it is not docked) fails in
  \<open>executeAction\<close>, and no remote call is made, whatever the service would answer.
\<close>

theorem C8_unmet_precondition_fails_without_call:
  assumes "(type action \<in> {Extract, Survey} \<and> nav_status ship \<noteq> IN_ORBIT)
         \<or> (type action \<in> {Refuel, Sell} \<and> nav_status ship \<noteq> DOCKED)"
  shows "executeAction gw ship action = (False, [])"
  using assms executeAction_needs_orbit [of action ship gw] executeAction_needs_dock [of action ship gw]
  by auto

theorem C8_witness:
  "((type (new_step Extract None 3) \<in> {Extract, Survey} \<and> nav_status dockedShip \<noteq> IN_ORBIT)
     \<or> (type (new_step Extract None 3) \<in> {Refuel, Sell} \<and> nav_status dockedShip \<noteq> DOCKED))
   \<and> executeAction (\<lambda>c. True) dockedShip (new_step Extract None 3) = (False, [])"
  using C8_unmet_precondition_fails_without_call [of "new_step Extract None 3" dockedShip "\<lambda>c. True"]
  by (simp add: new_step_def dockedShip_def)

section \<open>Properties of the mining planner\<close>

lemma cargoFull_empty_hold:
  "cargo_units ship = 0 \<Longrightarrow> cargo_capacity ship > 0 \<Longrightarrow> \<not> cargoFull ship"
  by (simp add: cargoFull_def)

lemma fuelLow_full_tank:
  "fuel_current ship = fuel_capacity ship \<Longrightarrow> m \<le> 100 \<Longrightarrow> \<not> fuelLow ship m"
  by (cases "fuel_capacity ship = 0") (auto simp: fuelLow_def js_div_def)


lemma planMiningActions_away:
  assumes "\<not> (stop_maxCargo (mining (policy state)) \<and> cargoFull ship)"
    and "\<not> (stop_lowFuel (mining (policy state)) \<and> fuelLow ship (minFuelPercent (mining (policy state))))"
    and "\<not> isAtAsteroid ship"
  shows "planMiningActions ship state queue =
           (state\<lparr>currentTask := ''Navigating to mining location''\<rparr>,
            queue @ [new_step Navigate (Some (nav_systemSymbol ship @ ''-ASTEROID-1'')) 3,
                     new_step Orbit None 3])"
  using assms unfolding planMiningActions_def Let_def by auto

lemma planMiningActions_at_asteroid:
  assumes "\<not> (stop_maxCargo (mining (policy state)) \<and> cargoFull ship)"
    and "\<not> (stop_lowFuel (mining (policy state)) \<and> fuelLow ship (minFuelPercent (mining (policy state))))"
    and "isAtAsteroid ship"
  shows "snd (planMiningActions ship state queue) =
           queue
           @ (if nav_status ship \<noteq> IN_ORBIT then [new_step Orbit None 3] else [])
           @ (if list_ex (\<lambda>m. str_includes m ''SURVEYOR'') (mounts ship)
              then [new_step Survey None 2] else [])
           @ [new_step Extract None 3]"
  using assms unfolding planMiningActions_def Let_def by auto


text \<open>
  Claim C2, as stated, fails. For the ship of the scenario (fuel 100/100, cargo 0/40, not
  at an asteroid, default policy, a surveyor mount) one invocation of the mining planner on
  the empty queue gives navigate and orbit only: it is neither
  \<open>[navigate, orbit, extract]\<close> nor \<open>[navigate, orbit, survey, extract]\<close>.
\<close>

theorem C2_counterexample:
  "snd (planMiningActions stationShip miningState []) =
     [new_step Navigate (Some ''X1-AB-ASTEROID-1'') 3, new_step Orbit None 3]
   \<and> snd (planMiningActions stationShip miningState []) \<noteq>
     [new_step Navigate (Some ''X1-AB-ASTEROID-1'') 3, new_step Orbit None 3,
      new_step Extract None 3]
   \<and> snd (planMiningActions stationShip miningState []) \<noteq>
     [new_step Navigate (Some ''X1-AB-ASTEROID-1'') 3, new_step Orbit None 3,
      new_step Survey None 2, new_step Extract None 3]"
  by (simp add: planMiningActions_def stationShip_def miningState_def defaultPolicy_def
      cargoFull_def fuelLow_def js_div_def isAtAsteroid_def new_step_def)

text \<open>
  Claim C2, amended. For a ship with full fuel and an empty hold of positive capacity
  under the default mining policy, one invocation of the mining planner appends
  \<open>[navigate(<system>-ASTEROID-1), orbit]\<close> when the ship is not at an asteroid, with or
  without a surveyor mount; the extract step, preceded by a survey step exactly when a
  mount's symbol contains SURVEYOR (and by an orbit step when the ship is not in orbit),
  is what an invocation appends when the ship is at an asteroid.
\<close>

theorem C2_mining_plan_full_fuel_empty_hold:
  assumes "fuel_current ship = fuel_capacity ship"
    and "cargo_units ship = 0" and "cargo_capacity ship > 0"
    and "mining (policy state) = mining defaultPolicy"
  shows "(\<not> isAtAsteroid ship \<longrightarrow>
            snd (planMiningActions ship state queue) =
              queue @ [new_step Navigate (Some (nav_systemSymbol ship @ ''-ASTEROID-1'')) 3,
                       new_step Orbit None 3])
       \<and> (isAtAsteroid ship \<longrightarrow>
            snd (planMiningActions ship state queue) =
              queue
              @ (if nav_status ship \<noteq> IN_ORBIT then [new_step Orbit None 3] else [])
              @ (if list_ex (\<lambda>m. str_includes m ''SURVEYOR'') (mounts ship)
                 then [new_step Survey None 2] else [])
              @ [new_step Extract None 3])"
proof -
  have cargo: "\<not> (stop_maxCargo (mining (policy state)) \<and> cargoFull ship)"
    using assms(2,3) cargoFull_empty_hold by blast
  have "minFuelPercent (mining (policy state)) \<le> 100"
    using assms(4) by (simp add: defaultPolicy_def)
  then have fuel: "\<not> (stop_lowFuel (mining (policy state))
                      \<and> fuelLow ship (minFuelPercent (mining (policy state))))"
    using assms(1) fuelLow_full_tank by blast
  show ?thesis
    using planMiningActions_away [OF cargo fuel] planMiningActions_at_asteroid [OF cargo fuel]
    by simp
qed

theorem C2_witness:
  "fuel_current stationShip = fuel_capacity stationShip
   \<and> cargo_units stationShip = 0 \<and> cargo_capacity stationShip > 0
   \<and> mining (policy miningState) = mining defaultPolicy
   \<and> \<not> isAtAsteroid stationShip
   \<and> isAtAsteroid dockedShip
   \<and> snd (planMiningActions stationShip miningState []) =
       [new_step Navigate (Some ''X1-AB-ASTEROID-1'') 3, new_step Orbit None 3]
   \<and> snd (planMiningActions dockedShip miningState []) =
       [new_step Orbit None 3, new_step Extract None 3]"
proof -
  have a: "fuel_current stationShip = fuel_capacity stationShip"
    and b: "cargo_units stationShip = 0" and c: "cargo_capacity stationShip > 0"
    by (simp_all add: stationShip_def)
  have a': "fuel_current dockedShip = fuel_capacity dockedShip"
    and b': "cargo_units dockedShip = 0" and c': "cargo_capacity dockedShip > 0"
    by (simp_all add: dockedShip_def)
  have d: "mining (policy miningState) = mining defaultPolicy"
    by (simp add: miningState_def)
  have e: "\<not> isAtAsteroid stationShip" by (simp add: isAtAsteroid_def stationShip_def)
  have e': "isAtAsteroid dockedShip" by (simp add: isAtAsteroid_def dockedShip_def)
  show ?thesis
    using a b c d e e'
      C2_mining_plan_full_fuel_empty_hold [OF a b c d, of "[]"]
      C2_mining_plan_full_fuel_empty_hold [OF a' b' c' d, of "[]"]
    by (simp add: stationShip_def dockedShip_def)
qed




section \<open>Properties of the maps\<close>

lemma map_get_map_set:
  "map_get (map_set k v m) k' = (if k' = k then Some v else map_get m k')"
  by (induction m) (auto simp: map_get_def)

lemma map_set_map_set: "map_set k v (map_set k v' m) = map_set k v m"
  by (induction m) auto

lemma keys_map_set:
  "map fst (map_set k v m) = (if k \<in> fst ` set m then map fst m else map fst m @ [k])"
  by (induction m) force+

lemma set_map_set_subset: "set (map_set k v m) \<subseteq> insert (k, v) (set m)"
  by (induction m) (auto split: if_splits)

lemma map_set_same: "map_get m k = Some v \<Longrightarrow> map_set k v m = m"
  by (induction m) (auto simp: map_get_def split: if_splits)

section \<open>Properties of pause, resume and stop\<close>

lemma getAutomationState_pause:
  "getAutomationState orc sy = Some st \<Longrightarrow>
   getAutomationState (pauseAutomation sy orc) sy'
     = (if sy' = sy then Some (st\<lparr>status := Paused, currentTask := ''Paused''\<rparr>)
        else getAutomationState orc sy')"
  by (simp add: getAutomationState_def pauseAutomation_def saveStates_def set_state_def
      map_get_map_set)

lemma getAutomationState_stop:
  "getAutomationState orc sy = Some st \<Longrightarrow>
   getAutomationState (stopAutomation sy orc) sy'
     = (if sy' = sy then Some (st\<lparr>status := Stopped, currentTask := ''Stopped''\<rparr>)
        else getAutomationState orc sy')"
  by (simp add: getAutomationState_def stopAutomation_def saveStates_def set_state_def
      map_get_map_set)

lemma getAutomationState_resume:
  "getAutomationState orc sy = Some st \<Longrightarrow>
   getAutomationState (resumeAutomation sy orc) sy'
     = (if sy' = sy \<and> status st = Paused
        then Some (st\<lparr>status := Running, currentTask := ''Resuming''\<rparr>)
        else getAutomationState orc sy')"
  by (simp add: getAutomationState_def resumeAutomation_def saveStates_def set_state_def
      map_get_map_set)

lemma resumeAutomation_not_paused:
  "getAutomationState orc sy = Some st \<Longrightarrow> status st \<noteq> Paused \<Longrightarrow> resumeAutomation sy orc = orc"
  by (simp add: getAutomationState_def resumeAutomation_def)

lemma no_state_no_change:
  "getAutomationState orc sy = None \<Longrightarrow>
   pauseAutomation sy orc = orc \<and> resumeAutomation sy orc = orc \<and> stopAutomation sy orc = orc"
  by (simp add: getAutomationState_def pauseAutomation_def resumeAutomation_def stopAutomation_def)

lemma actionQueues_pause: "actionQueues (pauseAutomation sy orc) = actionQueues orc"
  by (simp add: pauseAutomation_def saveStates_def set_state_def split: option.splits)

lemma actionQueues_stop: "actionQueues (stopAutomation sy orc) = actionQueues orc"
  by (simp add: stopAutomation_def saveStates_def set_state_def split: option.splits)

lemma actionQueues_resume: "actionQueues (resumeAutomation sy orc) = actionQueues orc"
  by (simp add: resumeAutomation_def saveStates_def set_state_def split: option.splits)

lemma tradingOrc_state:
  "getAutomationState tradingOrc ''SHIP-1'' =
     Some \<lparr>shipSymbol = ''SHIP-1'', behavior = Trading, status = Paused,
           currentTask = ''No cargo to trade'', progress = Number (Fin 0),
           lastAction = DateObj 0, errorMessage = None, policy = defaultPolicy\<rparr>"
  by (simp add: tradingOrc_def tick_def tickShip_def processShipAutomation_def
      startAutomation_def new_AutomationOrchestrator_def loadStates_def saveStates_def
      start_def put_state_def set_state_def map_values_def map_get_def queue_of_def calmEnv_def
      stationShip_def activeCooldown_def processActionQueue_def planNextActions_def
      planTradingActions_def noOverrides_def mergePolicy_def getAutomationState_def Let_def)

text \<open>
  Claim C9, as stated, fails for \<open>pauseAutomation\<close>. A ship whose trading automation was
  paused by the planner has the task \<^verbatim>\<open>No cargo to trade\<close>; \<open>pauseAutomation\<close> on this
  already paused ship overwrites the task with \<^verbatim>\<open>Paused\<close>.
\<close>

theorem C9_counterexample:
  "map_option status (getAutomationState tradingOrc ''SHIP-1'') = Some Paused
   \<and> map_option currentTask (getAutomationState tradingOrc ''SHIP-1'') = Some ''No cargo to trade''
   \<and> map_option currentTask (getAutomationState (pauseAutomation ''SHIP-1'' tradingOrc) ''SHIP-1'')
       = Some ''Paused''
   \<and> getAutomationState (pauseAutomation ''SHIP-1'' tradingOrc) ''SHIP-1''
       \<noteq> getAutomationState tradingOrc ''SHIP-1''"
  by (simp add: getAutomationState_pause [OF tradingOrc_state] tradingOrc_state)

lemma pauseAutomation_twice: "pauseAutomation sy (pauseAutomation sy orc) = pauseAutomation sy orc"
proof (cases "map_get (automationStates orc) sy")
  case None
  then show ?thesis by (simp add: pauseAutomation_def)
next
  case (Some st)
  then show ?thesis
    by (simp add: pauseAutomation_def saveStates_def set_state_def map_get_map_set map_set_map_set)
qed

lemma miningOrc_state: "getAutomationState miningOrc ''SHIP-1'' = Some miningState"
  by (simp add: miningOrc_def miningState_def startAutomation_def new_AutomationOrchestrator_def
      loadStates_def saveStates_def start_def noOverrides_def mergePolicy_def
      getAutomationState_def map_get_def Let_def)

text \<open>
  Claim C9, amended. \<open>pauseAutomation\<close> on a ship whose state is already paused keeps the
  status and every other field of that state, except \<open>currentTask\<close>, which becomes
  \<^verbatim>\<open>Paused\<close>; no other ship's state and no queue changes, and a second
  \<open>pauseAutomation\<close> right after a first changes nothing at all. \<open>resumeAutomation\<close> on a
  ship whose state is running leaves the whole orchestrator unchanged.
\<close>

theorem C9_pause_on_paused_resume_on_running:
  assumes "getAutomationState orc sy = Some st"
  shows "(status st = Paused \<longrightarrow>
            getAutomationState (pauseAutomation sy orc) sy = Some (st\<lparr>currentTask := ''Paused''\<rparr>)
            \<and> (\<forall>sy'. sy' \<noteq> sy \<longrightarrow>
                 getAutomationState (pauseAutomation sy orc) sy' = getAutomationState orc sy')
            \<and> actionQueues (pauseAutomation sy orc) = actionQueues orc)
       \<and> pauseAutomation sy (pauseAutomation sy orc) = pauseAutomation sy orc
       \<and> (status st = Running \<longrightarrow> resumeAutomation sy orc = orc)"
proof -
  have "status st = Paused \<Longrightarrow> st\<lparr>status := Paused, currentTask := ''Paused''\<rparr> = st\<lparr>currentTask := ''Paused''\<rparr>"
    by simp
  then show ?thesis
    using getAutomationState_pause [OF assms] resumeAutomation_not_paused [OF assms]
      actionQueues_pause [of sy orc] pauseAutomation_twice [of sy orc]
    by simp
qed

theorem C9_witness:
  "getAutomationState tradingOrc ''SHIP-1''
     = Some \<lparr>shipSymbol = ''SHIP-1'', behavior = Trading, status = Paused,
             currentTask = ''No cargo to trade'', progress = Number (Fin 0),
             lastAction = DateObj 0, errorMessage = None, policy = defaultPolicy\<rparr>
   \<and> getAutomationState (pauseAutomation ''SHIP-1'' tradingOrc) ''SHIP-1''
     = Some \<lparr>shipSymbol = ''SHIP-1'', behavior = Trading, status = Paused,
             currentTask = ''Paused'', progress = Number (Fin 0),
             lastAction = DateObj 0, errorMessage = None, policy = defaultPolicy\<rparr>
   \<and> getAutomationState miningOrc ''SHIP-1'' = Some miningState
   \<and> status miningState = Running
   \<and> resumeAutomation ''SHIP-1'' miningOrc = miningOrc"
  using C9_pause_on_paused_resume_on_running [OF tradingOrc_state]
    C9_pause_on_paused_resume_on_running [OF miningOrc_state]
    tradingOrc_state miningOrc_state
  by (simp add: miningState_def)

section \<open>What the planners and a tick do to a state object\<close>

text \<open>
  \<open>evolves s s'\<close>: the object \<open>s'\<close> is \<open>s\<close> after assignments that leave its symbol,
  behavior and policy alone and either keep its status or set it to paused or error.
\<close>

lemma planSellActions_state:
  "shipSymbol (fst (planSellActions ship state queue)) = shipSymbol state
   \<and> status (fst (planSellActions ship state queue)) = status state"
  by (simp add: planSellActions_def)

lemma planMiningActions_state:
  "shipSymbol (fst (planMiningActions ship state queue)) = shipSymbol state
   \<and> status (fst (planMiningActions ship state queue)) \<in> {status state, Paused}"
  by (simp add: planMiningActions_def planSellActions_def Let_def)

lemma planTradingActions_state:
  "shipSymbol (fst (planTradingActions ship state queue)) = shipSymbol state
   \<and> status (fst (planTradingActions ship state queue)) \<in> {status state, Paused}"
  by (simp add: planTradingActions_def planSellActions_def Let_def)

lemma planDeliverables_state:
  "shipSymbol (fst (planDeliverables cid ship ds state queue)) = shipSymbol state
   \<and> status (fst (planDeliverables cid ship ds state queue)) \<in> {status state, Paused}"
proof (induction ds arbitrary: state queue)
  case Nil
  show ?case by simp
next
  case (Cons d ds)
  show ?case
    using Cons.IH [of state queue]
      Cons.IH [of state "queue @ [new_step Navigate (Some (destinationSymbol d)) 3,
                       new_step Dock None 3,
                       \<lparr>type = Deliver, target = None,
                        payload = Some \<lparr>p_contractId = cid, p_tradeSymbol = tradeSymbol d,
                                        p_units = min (unitsRequired d - unitsFulfilled d)
                                                      (availableUnits ship (tradeSymbol d)),
                                        p_destinationSymbol = destinationSymbol d\<rparr>,
                        retries = 0, maxRetries = 3\<rparr>]"]
      Cons.IH [of "state\<lparr>currentTask := ''Need to acquire '' @ tradeSymbol d @ '' for contract'',
                         status := Paused\<rparr>" queue]
    by (auto simp: Let_def)
qed

lemma planContractActions_state:
  "shipSymbol (fst (planContractActions cs ship state queue)) = shipSymbol state
   \<and> status (fst (planContractActions cs ship state queue)) \<in> {status state, Paused, Error}"
proof (cases cs)
  case None
  then show ?thesis by (simp add: planContractActions_def)
next
  case (Some l)
  show ?thesis
  proof (cases "find (\<lambda>c. accepted c \<and> \<not> fulfilled c) l")
    case None
    with Some show ?thesis by (simp add: planContractActions_def)
  next
    case (Some ac)
    with \<open>cs = Some l\<close> show ?thesis
      using planDeliverables_state
        [of "contract_id ac" ship "case terms_deliver ac of None \<Rightarrow> [] | Some ds \<Rightarrow> ds"
            "state\<lparr>currentTask := ''Checking active contracts'',
                    currentTask := ''Working on contract: '' @ contract_type ac\<rparr>" queue]
      by (auto simp: planContractActions_def)
  qed
qed

lemma planNextActions_state:
  assumes "planNextActions env ship state orc = (state', orc', calls)"
  shows "shipSymbol state' = shipSymbol state"
    and "status state' \<in> {status state, Paused, Error}"
    and "automationStates orc' = automationStates orc"
    and "storage orc' = storage orc"  and "isRunning orc' = isRunning orc"
  using assms
    planMiningActions_state [of ship state "queue_of orc (shipSymbol state)"]
    planTradingActions_state [of ship state "queue_of orc (shipSymbol state)"]
    planContractActions_state [of "getContracts_result env" ship state "queue_of orc (shipSymbol state)"]
  by (auto simp: planNextActions_def Let_def split: behavior_kind.splits prod.splits)

lemma processActionQueue_state:
  assumes "processActionQueue env ship state queue = (state1, queue1, calls1)"
  shows "shipSymbol state1 = shipSymbol state" and "status state1 = status state"
  using assms
  by (auto simp: processActionQueue_def split: list.splits prod.splits if_splits)

lemma automationStates_saveStates [simp]: "automationStates (saveStates orc) = automationStates orc"
  by (simp add: saveStates_def)

lemma actionQueues_saveStates [simp]: "actionQueues (saveStates orc) = actionQueues orc"
  by (simp add: saveStates_def)

lemma automationStates_put_state [simp]:
  "automationStates (put_state s orc) = map_set (shipSymbol s) s (automationStates orc)"
  by (simp add: put_state_def set_state_def)

lemma actionQueues_put_state [simp]: "actionQueues (put_state s orc) = actionQueues orc"
  by (simp add: put_state_def set_state_def)

lemma processShipAutomation_thrown:
  "getShip_result env = Inl msg \<Longrightarrow>
   processShipAutomation env state orc =
     \<lparr>r_orch = orc, r_thrown = Some msg, r_calls = [GetShip (shipSymbol state)],
      r_executed = None, r_planned = False\<rparr>"
  by (simp add: processShipAutomation_def)

lemma processShipAutomation_cooldown:
  "getShip_result env = Inr ship \<Longrightarrow> activeCooldown ship = Some r \<Longrightarrow>
   processShipAutomation env state orc =
     \<lparr>r_orch = saveStates (put_state
          (state\<lparr>currentTask := ''Waiting for cooldown ('' @ string_of_int r @ ''s)''\<rparr>) orc),
      r_thrown = None, r_calls = [GetShip (shipSymbol state)],
      r_executed = None, r_planned = False\<rparr>"
  by (simp add: processShipAutomation_def)

lemma processShipAutomation_plan:
  "getShip_result env = Inr ship \<Longrightarrow> activeCooldown ship = None \<Longrightarrow>
   processActionQueue env ship state (queue_of orc (shipSymbol state)) = (state1, [], calls1) \<Longrightarrow>
   planNextActions env ship state1
     (if queue_of orc (shipSymbol state) \<noteq> []
      then orc\<lparr>actionQueues := map_set (shipSymbol state) [] (actionQueues orc)\<rparr>
      else orc) = (state2, orc2, calls2) \<Longrightarrow>
   processShipAutomation env state orc =
     \<lparr>r_orch = saveStates (put_state state2 orc2), r_thrown = None,
      r_calls = GetShip (shipSymbol state) # calls1 @ calls2,
      r_executed = (case queue_of orc (shipSymbol state) of [] \<Rightarrow> None | a # _ \<Rightarrow> Some a),
      r_planned = True\<rparr>"
  by (simp add: processShipAutomation_def Let_def)

lemma processShipAutomation_no_plan:
  "getShip_result env = Inr ship \<Longrightarrow> activeCooldown ship = None \<Longrightarrow>
   processActionQueue env ship state (queue_of orc (shipSymbol state)) = (state1, queue1, calls1) \<Longrightarrow>
   queue1 \<noteq> [] \<Longrightarrow>
   processShipAutomation env state orc =
     \<lparr>r_orch = saveStates (put_state state1
          (if queue_of orc (shipSymbol state) \<noteq> []
           then orc\<lparr>actionQueues := map_set (shipSymbol state) queue1 (actionQueues orc)\<rparr>
           else orc)),
      r_thrown = None, r_calls = GetShip (shipSymbol state) # calls1,
      r_executed = (case queue_of orc (shipSymbol state) of [] \<Rightarrow> None | a # _ \<Rightarrow> Some a),
      r_planned = False\<rparr>"
  by (simp add: processShipAutomation_def Let_def)

lemma tickShip_states:
  "\<exists>s'. shipSymbol s' = shipSymbol state \<and> status s' \<in> {status state, Paused, Error}
        \<and> automationStates (tickShip envs state orc)
            = map_set (shipSymbol state) s' (automationStates orc)"
proof (cases "getShip_result (envs (shipSymbol state))")
  case (Inl msg)
  have "automationStates (tickShip envs state orc)
      = map_set (shipSymbol state) (state\<lparr>status := Error, errorMessage := Some msg\<rparr>)
          (automationStates orc)"
    by (simp add: tickShip_def processShipAutomation_thrown [OF Inl])
  then show ?thesis
    by (intro exI [of _ "state\<lparr>status := Error, errorMessage := Some msg\<rparr>"]) simp
next
  case (Inr ship)
  show ?thesis
  proof (cases "activeCooldown ship")
    case (Some r)
    have "automationStates (tickShip envs state orc)
      = map_set (shipSymbol state)
          (state\<lparr>currentTask := ''Waiting for cooldown ('' @ string_of_int r @ ''s)''\<rparr>)
          (automationStates orc)"
      by (simp add: tickShip_def processShipAutomation_cooldown [OF Inr Some])
    then show ?thesis
      by (intro exI [of _ "state\<lparr>currentTask := ''Waiting for cooldown ('' @ string_of_int r @ ''s)''\<rparr>"])
        simp
  next
    case None
    obtain state1 queue1 calls1 where
      pq: "processActionQueue (envs (shipSymbol state)) ship state (queue_of orc (shipSymbol state))
             = (state1, queue1, calls1)"
      using prod_cases3 by blast
    note s1 = processActionQueue_state [OF pq]
    show ?thesis
    proof (cases "queue1 = []")
      case True
      obtain state2 orc2 calls2 where
        pn: "planNextActions (envs (shipSymbol state)) ship state1
               (if queue_of orc (shipSymbol state) \<noteq> []
                then orc\<lparr>actionQueues := map_set (shipSymbol state) [] (actionQueues orc)\<rparr>
                else orc) = (state2, orc2, calls2)"
        using prod_cases3 by blast
      note s2 = planNextActions_state [OF pn]
      have "automationStates orc2 = automationStates orc"
        using s2(3) by (simp split: if_splits)
      then have "automationStates (tickShip envs state orc)
              = map_set (shipSymbol state) state2 (automationStates orc)"
        using s1 s2(1)
        by (simp add: tickShip_def processShipAutomation_plan [OF Inr None pq [unfolded True] pn])
      then show ?thesis
        using s1 s2 by (intro exI [of _ state2]) auto
    next
      case False
      have "automationStates (tickShip envs state orc)
              = map_set (shipSymbol state) state1 (automationStates orc)"
        using s1
        by (simp add: tickShip_def processShipAutomation_no_plan [OF Inr None pq False])
      then show ?thesis
        using s1 by (intro exI [of _ state1]) auto
    qed
  qed
qed

section \<open>The state map stays keyed by ship symbol\<close>

lemma keyed_by_symbol_map_set:
  assumes "keyed_by_symbol m" and "shipSymbol s = k"
  shows "keyed_by_symbol (map_set k s m)"
proof -
  have "\<forall>(k', s') \<in> set (map_set k s m). shipSymbol s' = k'"
    using assms set_map_set_subset [of k s m] by (auto simp: keyed_by_symbol_def)
  moreover have "distinct (map fst (map_set k s m))"
    using assms(1) by (simp add: keys_map_set keyed_by_symbol_def)
  ultimately show ?thesis by (simp add: keyed_by_symbol_def)
qed

lemma keyed_by_symbol_lookup:
  "keyed_by_symbol m \<Longrightarrow> map_get m k = Some s \<Longrightarrow> shipSymbol s = k"
  by (auto simp: keyed_by_symbol_def map_get_def dest: map_of_SomeD)


lemma keyed_by_symbol_fold:
  "keyed_by_symbol acc \<Longrightarrow>
   keyed_by_symbol (fold (\<lambda>(k, v) m. map_set k v m) (map (\<lambda>s. (shipSymbol s, s)) states) acc)"
  by (induction states arbitrary: acc) (simp_all add: keyed_by_symbol_map_set)

lemma keyed_by_symbol_constructed:
  "keyed_by_symbol (automationStates (new_AutomationOrchestrator st))"
  using keyed_by_symbol_fold [of "[]"]
  by (cases st) (simp_all add: new_AutomationOrchestrator_def loadStates_def new_Map_def
      keyed_by_symbol_def)

lemma keyed_by_symbol_tickShip:
  "keyed_by_symbol (automationStates orc) \<Longrightarrow> keyed_by_symbol (automationStates (tickShip envs s orc))"
  using tickShip_states [of s envs orc] keyed_by_symbol_map_set by metis

lemma keyed_by_symbol_fold_tickShip:
  "keyed_by_symbol (automationStates orc) \<Longrightarrow>
   keyed_by_symbol (automationStates (fold (tickShip envs) L orc))"
  by (induction L arbitrary: orc) (simp_all add: keyed_by_symbol_tickShip)

lemma keyed_by_symbol_run:
  assumes "keyed_by_symbol (automationStates orc)"
  shows "keyed_by_symbol (automationStates (run c orc))"
proof (cases c)
  case (Start now sy beh ov)
  then show ?thesis
    using assms by (simp add: startAutomation_def Let_def start_def keyed_by_symbol_map_set)
next
  case (Stop sy)
  then show ?thesis
    using assms keyed_by_symbol_lookup [OF assms, of sy]
    by (auto simp: stopAutomation_def set_state_def keyed_by_symbol_map_set split: option.splits)
next
  case (Pause sy)
  then show ?thesis
    using assms keyed_by_symbol_lookup [OF assms, of sy]
    by (auto simp: pauseAutomation_def set_state_def keyed_by_symbol_map_set split: option.splits)
next
  case (Resume sy)
  then show ?thesis
    using assms keyed_by_symbol_lookup [OF assms, of sy]
    by (auto simp: resumeAutomation_def set_state_def keyed_by_symbol_map_set split: option.splits)
next
  case (Tick envs)
  then show ?thesis
    using assms by (simp add: tick_def keyed_by_symbol_fold_tickShip)
qed

lemma reachable_keyed_by_symbol: "reachable orc \<Longrightarrow> keyed_by_symbol (automationStates orc)"
  by (induction rule: reachable.induct) (simp_all add: keyed_by_symbol_constructed keyed_by_symbol_run)




section \<open>The status of a ship along a run\<close>











section \<open>Saving and loading\<close>

lemma map_set_fresh: "k \<notin> fst ` set m \<Longrightarrow> map_set k v m = m @ [(k, v)]"
  by (induction m) auto

lemma fold_map_set_distinct:
  "distinct (map fst (acc @ xs)) \<Longrightarrow> fold (\<lambda>(k, v) m. map_set k v m) xs acc = acc @ xs"
proof (induction xs arbitrary: acc)
  case Nil
  then show ?case by simp
next
  case (Cons x xs)
  obtain k v where x: "x = (k, v)" by (cases x)
  have "k \<notin> fst ` set acc" using Cons.prems x by auto
  then have "map_set k v acc = acc @ [(k, v)]" by (rule map_set_fresh)
  moreover have "distinct (map fst ((acc @ [(k, v)]) @ xs))" using Cons.prems x by simp
  ultimately show ?case
    using Cons.IH [of "acc @ [(k, v)]"] x by simp
qed

lemma new_Map_distinct: "distinct (map fst xs) \<Longrightarrow> new_Map xs = xs"
  using fold_map_set_distinct [of "[]" xs] by (simp add: new_Map_def)

lemma shipSymbol_parse_stringify [simp]: "shipSymbol (parse_stringify s) = shipSymbol s"
  by (simp add: parse_stringify_def)

lemma entries_after_parse:
  "\<forall>(k, s) \<in> set m. shipSymbol s = k \<Longrightarrow>
   map (\<lambda>s. (shipSymbol s, s)) (map parse_stringify (map_values m))
     = map (\<lambda>(k, s). (k, parse_stringify s)) m"
  by (induction m) (auto simp: map_values_def)

lemma keys_map_values: "map fst (map (\<lambda>(k, s). (k, f s)) m) = map fst m"
  by (induction m) auto

lemma automationStates_reloaded:
  assumes "keyed_by_symbol (automationStates orc)"
  shows "automationStates (new_AutomationOrchestrator (storage (saveStates orc)))
           = map (\<lambda>(k, s). (k, parse_stringify s)) (automationStates orc)"
proof -
  have e: "map (\<lambda>s. (shipSymbol s, s)) (map parse_stringify (map_values (automationStates orc)))
     = map (\<lambda>(k, s). (k, parse_stringify s)) (automationStates orc)"
    using assms by (intro entries_after_parse) (simp add: keyed_by_symbol_def)
  have "map fst (map (\<lambda>(k, s). (k, parse_stringify s)) (automationStates orc))
          = map fst (automationStates orc)"
    by (rule keys_map_values)
  then have "distinct (map fst (map (\<lambda>(k, s). (k, parse_stringify s)) (automationStates orc)))"
    using assms by (simp only: keyed_by_symbol_def)
  then show ?thesis
    using e by (simp add: new_AutomationOrchestrator_def loadStates_def saveStates_def new_Map_distinct)
qed

lemma getAutomationState_reloaded:
  assumes "keyed_by_symbol (automationStates orc)"
  shows "getAutomationState (new_AutomationOrchestrator (storage (saveStates orc))) sy
           = map_option parse_stringify (getAutomationState orc sy)"
  by (simp add: getAutomationState_def map_get_def automationStates_reloaded [OF assms] map_of_map)

lemma actionQueues_constructed: "actionQueues (new_AutomationOrchestrator st) = []"
  by (cases st) (simp_all add: new_AutomationOrchestrator_def loadStates_def)

lemma instant_json_date [simp]: "instant (json_date d) = instant d"
  by (cases d) simp_all

lemma plannedOrc_queue:
  "queue_of plannedOrc ''SHIP-1'' =
     [new_step Navigate (Some ''X1-AB-ASTEROID-1'') 3, new_step Orbit None 3]"
  by (simp add: plannedOrc_def tick_def tickShip_def processShipAutomation_def
      miningOrc_def startAutomation_def new_AutomationOrchestrator_def loadStates_def
      saveStates_def start_def put_state_def set_state_def map_values_def map_get_def
      queue_of_def calmEnv_def stationShip_def activeCooldown_def processActionQueue_def
      planNextActions_def planMiningActions_def cargoFull_def fuelLow_def js_div_def
      isAtAsteroid_def noOverrides_def mergePolicy_def defaultPolicy_def Let_def)

text \<open>
  Claim C1, as stated, fails: the action queues are not part of what \<open>saveStates\<close>
  writes. The mining automation that has planned navigate and orbit comes back from
  storage, in a newly constructed orchestrator, with an empty queue.
\<close>

theorem C1_counterexample:
  "queue_of plannedOrc ''SHIP-1'' =
     [new_step Navigate (Some ''X1-AB-ASTEROID-1'') 3, new_step Orbit None 3]
   \<and> queue_of (new_AutomationOrchestrator (storage (saveStates plannedOrc))) ''SHIP-1'' = []
   \<and> queue_of (new_AutomationOrchestrator (storage (saveStates plannedOrc))) ''SHIP-1''
       \<noteq> queue_of plannedOrc ''SHIP-1''"
proof -
  have "queue_of (new_AutomationOrchestrator (storage (saveStates plannedOrc))) ''SHIP-1'' = []"
    by (simp add: queue_of_def map_get_def actionQueues_constructed)
  then show ?thesis
    by (simp add: plannedOrc_queue)
qed

lemma plannedOrc_state:
  "getAutomationState plannedOrc ''SHIP-1''
     = Some (miningState\<lparr>currentTask := ''Navigating to mining location''\<rparr>)"
  by (simp add: plannedOrc_def tick_def tickShip_def processShipAutomation_def
      miningOrc_def miningState_def startAutomation_def new_AutomationOrchestrator_def
      loadStates_def saveStates_def start_def put_state_def set_state_def map_values_def
      map_get_def queue_of_def calmEnv_def stationShip_def activeCooldown_def
      processActionQueue_def planNextActions_def planMiningActions_def cargoFull_def
      fuelLow_def js_div_def isAtAsteroid_def noOverrides_def mergePolicy_def defaultPolicy_def
      getAutomationState_def Let_def)

lemma plannedOrc_reachable: "reachable plannedOrc"
proof -
  have "reachable (run (Tick (\<lambda>sy. calmEnv stationShip))
          (run (Start 0 ''SHIP-1'' Mining noOverrides) (new_AutomationOrchestrator NoItem)))"
    by (intro reachable.intros)
  then show ?thesis by (simp add: plannedOrc_def miningOrc_def)
qed

text \<open>
  Claim C1, amended. For every reachable orchestrator and every ship with an automation
  state, saving with \<open>saveStates\<close> and constructing a new orchestrator from the storage
  (which runs \<open>loadStates\<close>) gives that ship a state with the same ship symbol, behavior,
  status, task text, error message and policy, the same progress when it was a finite
  number, and a \<open>lastAction\<close> that denotes the same instant to the millisecond (as ISO
  text). The ship's queue is not restored: it is empty in the new orchestrator.
\<close>

theorem C1_save_load_round_trip:
  assumes "reachable orc" and "getAutomationState orc sy = Some st"
  shows "getAutomationState (new_AutomationOrchestrator (storage (saveStates orc))) sy
           = Some (parse_stringify st)
       \<and> shipSymbol (parse_stringify st) = shipSymbol st
       \<and> behavior (parse_stringify st) = behavior st
       \<and> status (parse_stringify st) = status st
       \<and> currentTask (parse_stringify st) = currentTask st
       \<and> errorMessage (parse_stringify st) = errorMessage st
       \<and> policy (parse_stringify st) = policy st
       \<and> instant (lastAction (parse_stringify st)) = instant (lastAction st)
       \<and> (\<forall>x. progress st = Number (Fin x) \<longrightarrow> progress (parse_stringify st) = progress st)
       \<and> queue_of (new_AutomationOrchestrator (storage (saveStates orc))) sy = []"
proof -
  have "getAutomationState (new_AutomationOrchestrator (storage (saveStates orc))) sy
           = Some (parse_stringify st)"
    using getAutomationState_reloaded [OF reachable_keyed_by_symbol [OF assms(1)], of sy] assms(2)
    by simp
  moreover have "queue_of (new_AutomationOrchestrator (storage (saveStates orc))) sy = []"
    by (simp add: queue_of_def map_get_def actionQueues_constructed)
  ultimately show ?thesis
    by (simp add: parse_stringify_def)
qed

theorem C1_witness:
  "reachable plannedOrc
   \<and> getAutomationState plannedOrc ''SHIP-1''
       = Some (miningState\<lparr>currentTask := ''Navigating to mining location''\<rparr>)
   \<and> progress (miningState\<lparr>currentTask := ''Navigating to mining location''\<rparr>) = Number (Fin 0)
   \<and> getAutomationState (new_AutomationOrchestrator (storage (saveStates plannedOrc))) ''SHIP-1''
       = Some (miningState\<lparr>currentTask := ''Navigating to mining location'',
                            lastAction := DateString 0\<rparr>)
   \<and> queue_of (new_AutomationOrchestrator (storage (saveStates plannedOrc))) ''SHIP-1'' = []"
  using C1_save_load_round_trip [OF plannedOrc_reachable plannedOrc_state]
    plannedOrc_reachable plannedOrc_state
  by (simp add: parse_stringify_def miningState_def)

section \<open>Executing the head of the queue\<close>

lemma processActionQueue_empty: "processActionQueue env ship state [] = (state, [], [])"
  by (simp add: processActionQueue_def)

lemma processActionQueue_success:
  "executeAction (gw_ok env) ship action = (True, calls) \<Longrightarrow>
   processActionQueue env ship state (action # rest)
     = (state\<lparr>lastAction := DateObj (clock env)\<rparr>, rest, calls)"
  by (simp add: processActionQueue_def)

lemma processActionQueue_failure:
  "executeAction (gw_ok env) ship action = (False, calls) \<Longrightarrow>
   processActionQueue env ship state (action # rest)
     = (if maxRetries action \<le> retries action + 1
        then (state\<lparr>errorMessage :=
                 Some (''Action '' @ type_name (type action) @ '' failed after ''
                       @ string_of_nat (maxRetries action) @ '' retries'')\<rparr>, rest, calls)
        else (state, action\<lparr>retries := retries action + 1\<rparr> # rest, calls))"
  by (simp add: processActionQueue_def countRetry_def)



lemma retryOrc_queue:
  "queue_of retryOrc ''SHIP-1'' = [(new_step Extract None 3)\<lparr>retries := 2\<rparr>]"
  by (simp add: retryOrc_def tick_def tickShip_def processShipAutomation_def
      startAutomation_def new_AutomationOrchestrator_def
      loadStates_def saveStates_def start_def put_state_def set_state_def map_values_def
      map_get_def queue_of_def calmEnv_def dockedShip_def dockedFullShip_def activeCooldown_def
      processActionQueue_def executeAction_def countRetry_def new_step_def
      planNextActions_def planMiningActions_def cargoFull_def
      fuelLow_def js_div_def isAtAsteroid_def noAutoSell_def mergePolicy_def defaultPolicy_def
      getAutomationState_def Let_def)


lemma queue_of_saveStates [simp]: "queue_of (saveStates orc) sy = queue_of orc sy"
  by (simp add: queue_of_def)

lemma queue_of_put_state [simp]: "queue_of (put_state s orc) sy = queue_of orc sy"
  by (simp add: queue_of_def)



lemmas run_unfold =
  tick_def tickShip_def processShipAutomation_def
  startAutomation_def new_AutomationOrchestrator_def
  loadStates_def saveStates_def start_def put_state_def set_state_def map_values_def
  map_get_def queue_of_def calmEnv_def rejectingEnv_def dockedShip_def dockedFullShip_def
  stationShip_def activeCooldown_def
  processActionQueue_def executeAction_def countRetry_def new_step_def
  planNextActions_def planMiningActions_def planTradingActions_def cargoFull_def
  fuelLow_def js_div_def isAtAsteroid_def noAutoSell_def noOverrides_def mergePolicy_def
  defaultPolicy_def getAutomationState_def Let_def

lemma freshOrc_state: "getAutomationState freshOrc ''SHIP-1'' = Some retryState"
  by (simp add: freshOrc_def retryState_def run_unfold)

lemma freshOrc_queue: "queue_of freshOrc ''SHIP-1'' = [new_step Extract None 3]"
  by (simp add: freshOrc_def run_unfold)

lemma orbitOrc_state:
  "getAutomationState orbitOrc ''SHIP-1'' = Some (retryState\<lparr>lastAction := DateObj 0\<rparr>)"
  by (simp add: orbitOrc_def retryState_def run_unfold)




section \<open>Executing and planning in one tick\<close>

lemma processActionQueue_queue_empty_iff:
  "fst (snd (processActionQueue env ship state queue)) = [] \<longleftrightarrow>
     queue = []
   \<or> (\<exists>a. queue = [a]
          \<and> (fst (executeAction (gw_ok env) ship a) \<or> maxRetries a \<le> retries a + 1))"
proof (cases queue)
  case Nil
  then show ?thesis by (simp add: processActionQueue_empty)
next
  case (Cons a rest)
  obtain ok calls where e: "executeAction (gw_ok env) ship a = (ok, calls)"
    by (cases "executeAction (gw_ok env) ship a")
  show ?thesis
  proof (cases ok)
    case True
    then show ?thesis
      using Cons e processActionQueue_success [of env ship a calls state rest] by auto
  next
    case False
    then show ?thesis
      using Cons e processActionQueue_failure [of env ship a calls state rest] by auto
  qed
qed

lemma r_planned_iff:
  "r_planned (processShipAutomation env state orc) \<longleftrightarrow>
     (\<exists>ship. getShip_result env = Inr ship \<and> activeCooldown ship = None
        \<and> fst (snd (processActionQueue env ship state (queue_of orc (shipSymbol state)))) = [])"
proof (cases "getShip_result env")
  case (Inl msg)
  then show ?thesis by (simp add: processShipAutomation_thrown)
next
  case (Inr ship)
  show ?thesis
  proof (cases "activeCooldown ship")
    case (Some r)
    then show ?thesis using Inr by (simp add: processShipAutomation_cooldown)
  next
    case None
    obtain state1 queue1 calls1 where
      pq: "processActionQueue env ship state (queue_of orc (shipSymbol state))
             = (state1, queue1, calls1)"
      using prod_cases3 by blast
    show ?thesis
    proof (cases "queue1 = []")
      case True
      obtain state2 orc2 calls2 where
        pn: "planNextActions env ship state1
               (if queue_of orc (shipSymbol state) \<noteq> []
                then orc\<lparr>actionQueues := map_set (shipSymbol state) [] (actionQueues orc)\<rparr>
                else orc) = (state2, orc2, calls2)"
        using prod_cases3 by blast
      show ?thesis
        using Inr None pq True
        by (simp add: processShipAutomation_plan [OF Inr None pq [unfolded True] pn])
    next
      case False
      then show ?thesis
        using Inr None pq by (simp add: processShipAutomation_no_plan [OF Inr None pq False])
    qed
  qed
qed

lemma r_executed_eq:
  "r_executed (processShipAutomation env state orc)
     = (case getShip_result env of
          Inl msg \<Rightarrow> None
        | Inr ship \<Rightarrow>
            (case activeCooldown ship of
               Some r \<Rightarrow> None
             | None \<Rightarrow> (case queue_of orc (shipSymbol state) of [] \<Rightarrow> None | a # rest \<Rightarrow> Some a)))"
proof (cases "getShip_result env")
  case (Inl msg)
  then show ?thesis by (simp add: processShipAutomation_thrown)
next
  case (Inr ship)
  show ?thesis
  proof (cases "activeCooldown ship")
    case (Some r)
    then show ?thesis using Inr by (simp add: processShipAutomation_cooldown)
  next
    case None
    obtain state1 queue1 calls1 where
      pq: "processActionQueue env ship state (queue_of orc (shipSymbol state))
             = (state1, queue1, calls1)"
      using prod_cases3 by blast
    show ?thesis
    proof (cases "queue1 = []")
      case True
      obtain state2 orc2 calls2 where
        pn: "planNextActions env ship state1
               (if queue_of orc (shipSymbol state) \<noteq> []
                then orc\<lparr>actionQueues := map_set (shipSymbol state) [] (actionQueues orc)\<rparr>
                else orc) = (state2, orc2, calls2)"
        using prod_cases3 by blast
      show ?thesis
        using Inr None
        by (simp add: processShipAutomation_plan [OF Inr None pq [unfolded True] pn])
    next
      case False
      then show ?thesis
        using Inr None by (simp add: processShipAutomation_no_plan [OF Inr None pq False])
    qed
  qed
qed

text \<open>
  Claim C7, as stated, fails. The queue of the running ship holds one step, extract. In
  one processing of the ship that step is handed to \<open>executeAction\<close> (the gateway is
  called and the step succeeds) and, the queue being empty afterwards, the planner is
  invoked too: the queue was not empty at the start, and a step was executed in the tick in
  which the planner ran.
\<close>

theorem C7_counterexample:
  "getAutomationState freshOrc ''SHIP-1'' = Some retryState
   \<and> status retryState = Running
   \<and> queue_of freshOrc ''SHIP-1'' = [new_step Extract None 3]
   \<and> r_executed (processShipAutomation (calmEnv orbitingShip) retryState freshOrc)
       = Some (new_step Extract None 3)
   \<and> r_planned (processShipAutomation (calmEnv orbitingShip) retryState freshOrc)
   \<and> r_calls (processShipAutomation (calmEnv orbitingShip) retryState freshOrc)
       = [GetShip ''SHIP-1'', ExtractResources ''SHIP-1'']"
proof -
  have sym: "shipSymbol retryState = ''SHIP-1''" and run: "status retryState = Running"
    by (simp_all add: retryState_def)
  have g: "getShip_result (calmEnv orbitingShip) = Inr orbitingShip"
    by (simp add: calmEnv_def)
  have c: "activeCooldown orbitingShip = None"
    by (simp add: activeCooldown_def orbitingShip_def dockedShip_def)
  have e: "executeAction (gw_ok (calmEnv orbitingShip)) orbitingShip (new_step Extract None 3)
             = (True, [ExtractResources ''SHIP-1''])"
    by (simp add: executeAction_def new_step_def orbitingShip_def dockedShip_def calmEnv_def)
  have pq: "processActionQueue (calmEnv orbitingShip) orbitingShip retryState
              (queue_of freshOrc (shipSymbol retryState))
            = (retryState\<lparr>lastAction := DateObj (clock (calmEnv orbitingShip))\<rparr>, [],
               [ExtractResources ''SHIP-1''])"
    using processActionQueue_success [OF e, of retryState "[]"] by (simp add: sym freshOrc_queue)
  obtain state2 orc2 calls2 where
    pn: "planNextActions (calmEnv orbitingShip) orbitingShip
           (retryState\<lparr>lastAction := DateObj (clock (calmEnv orbitingShip))\<rparr>)
           (if queue_of freshOrc (shipSymbol retryState) \<noteq> []
            then freshOrc\<lparr>actionQueues := map_set (shipSymbol retryState) [] (actionQueues freshOrc)\<rparr>
            else freshOrc) = (state2, orc2, calls2)"
    using prod_cases3 by blast
  have "calls2 = []"
    using pn by (auto simp: planNextActions_def retryState_def Let_def split: prod.splits)
  then show ?thesis
    using processShipAutomation_plan [OF g c pq pn]
    by (simp add: freshOrc_state freshOrc_queue sym run)
qed

text \<open>
  Claim C7, amended. In one processing of a ship, the planner is invoked exactly when the
  ship snapshot was fetched, the ship is not on cooldown, and the queue is empty after the
  execution block: the queue was empty at the start (and then no step is executed), or it
  held exactly one step, which was executed in this tick and removed because it succeeded
  or because its failure used up its retries. The step executed, if any, is the head of
  the queue at the start. So the planner never runs while a step remains queued, but a
  tick can both execute the last queued step and plan.
\<close>

theorem C7_plan_iff_queue_empty_after_execution:
  "(r_planned (processShipAutomation env state orc) \<longleftrightarrow>
      (\<exists>ship. getShip_result env = Inr ship \<and> activeCooldown ship = None
         \<and> (queue_of orc (shipSymbol state) = []
            \<or> (\<exists>a. queue_of orc (shipSymbol state) = [a]
                  \<and> (fst (executeAction (gw_ok env) ship a) \<or> maxRetries a \<le> retries a + 1)))))
   \<and> r_executed (processShipAutomation env state orc)
       = (case getShip_result env of
            Inl msg \<Rightarrow> None
          | Inr ship \<Rightarrow>
              (case activeCooldown ship of
                 Some r \<Rightarrow> None
               | None \<Rightarrow> (case queue_of orc (shipSymbol state) of [] \<Rightarrow> None | a # rest \<Rightarrow> Some a)))"
  using r_planned_iff [of env state orc] r_executed_eq [of env state orc]
    processActionQueue_queue_empty_iff [of env _ state "queue_of orc (shipSymbol state)"]
  by simp

section \<open>Steps without a handler\<close>

lemma planDeliverables_steps:
  "a \<in> set (snd (planDeliverables cid ship ds state queue)) \<Longrightarrow>
   a \<in> set queue \<or> (retries a = 0 \<and> maxRetries a = 3)"
proof (induction ds arbitrary: state queue)
  case Nil
  then show ?case by simp
next
  case (Cons d ds)
  show ?case
  proof (cases "unitsRequired d - unitsFulfilled d > 0 \<and> availableUnits ship (tradeSymbol d) > 0")
    case True
    then have "a \<in> set (queue @ [new_step Navigate (Some (destinationSymbol d)) 3,
                       new_step Dock None 3,
                       \<lparr>type = Deliver, target = None,
                        payload = Some \<lparr>p_contractId = cid, p_tradeSymbol = tradeSymbol d,
                                        p_units = min (unitsRequired d - unitsFulfilled d)
                                                      (availableUnits ship (tradeSymbol d)),
                                        p_destinationSymbol = destinationSymbol d\<rparr>,
                        retries = 0, maxRetries = 3\<rparr>])
             \<or> (retries a = 0 \<and> maxRetries a = 3)"
      using Cons.prems by (intro Cons.IH [of state]) (simp add: Let_def)
    then show ?thesis by (auto simp: new_step_def)
  next
    case False
    then show ?thesis
      using Cons.prems Cons.IH [of state queue]
        Cons.IH [of "state\<lparr>currentTask := ''Need to acquire '' @ tradeSymbol d @ '' for contract'',
                         status := Paused\<rparr>" queue]
      by (auto simp: Let_def split: if_splits)
  qed
qed

lemma planContractActions_steps:
  "a \<in> set (snd (planContractActions cs ship state queue)) \<Longrightarrow>
   a \<in> set queue \<or> (retries a = 0 \<and> maxRetries a = 3)"
  using planDeliverables_steps
  by (auto simp: planContractActions_def Let_def split: option.splits)








section \<open>Retries stay within the budget\<close>

lemma within_budget_new_step [simp]: "0 < mx \<Longrightarrow> within_budget [new_step ty tg mx]"
  by (simp add: within_budget_def new_step_def)

lemma within_budget_append [simp]:
  "within_budget (q @ q') \<longleftrightarrow> within_budget q \<and> within_budget q'"
  by (auto simp: within_budget_def)

lemma within_budget_Cons:
  "within_budget (a # q) \<longleftrightarrow> retries a < maxRetries a \<and> within_budget q"
  by (auto simp: within_budget_def)

lemma within_budget_Nil [simp]: "within_budget []"
  by (simp add: within_budget_def)

lemma planSellActions_budget:
  "within_budget queue \<Longrightarrow> within_budget (snd (planSellActions ship state queue))"
  by (simp add: planSellActions_def within_budget_Cons new_step_def)

lemma planMiningActions_budget:
  "within_budget queue \<Longrightarrow> within_budget (snd (planMiningActions ship state queue))"
  by (simp add: planMiningActions_def planSellActions_budget Let_def within_budget_Cons new_step_def)

lemma planTradingActions_budget:
  "within_budget queue \<Longrightarrow> within_budget (snd (planTradingActions ship state queue))"
  by (simp add: planTradingActions_def planSellActions_budget Let_def)

lemma planContractActions_budget:
  "within_budget queue \<Longrightarrow> within_budget (snd (planContractActions cs ship state queue))"
  using planContractActions_steps [of _ cs ship state queue]
  by (fastforce simp: within_budget_def)

lemma processActionQueue_budget:
  "within_budget queue \<Longrightarrow> within_budget (fst (snd (processActionQueue env ship state queue)))"
  by (auto simp: processActionQueue_def within_budget_def countRetry_def
      split: list.splits prod.splits)

lemma queues_within_budget_lookup:
  "queues_within_budget orc \<Longrightarrow> within_budget (queue_of orc sy)"
  by (auto simp: queues_within_budget_def queue_of_def map_get_def
      split: option.splits dest: map_of_SomeD)

lemma queues_within_budget_set:
  "queues_within_budget orc \<Longrightarrow> within_budget q \<Longrightarrow>
   queues_within_budget (orc\<lparr>actionQueues := map_set k q (actionQueues orc)\<rparr>)"
  using set_map_set_subset [of k q "actionQueues orc"]
  by (auto simp: queues_within_budget_def)

lemma queues_within_budget_states [simp]:
  "queues_within_budget (saveStates orc) = queues_within_budget orc"
  "queues_within_budget (put_state s orc) = queues_within_budget orc"
  "queues_within_budget (set_state k s orc) = queues_within_budget orc"
  by (simp_all add: queues_within_budget_def set_state_def)

lemma planNextActions_budget:
  assumes "planNextActions env ship state orc = (state', orc', calls)"
    and "queues_within_budget orc"
  shows "queues_within_budget orc'"
proof -
  note q = queues_within_budget_lookup [OF assms(2), of "shipSymbol state"]
  have "orc' = orc\<lparr>actionQueues := map_set (shipSymbol state)
            (snd (fst (case behavior state of
              Mining \<Rightarrow> (planMiningActions ship state (queue_of orc (shipSymbol state)), [])
            | Trading \<Rightarrow> (planTradingActions ship state (queue_of orc (shipSymbol state)), [])
            | ContractB \<Rightarrow> (planContractActions (getContracts_result env) ship state
                               (queue_of orc (shipSymbol state)), [GetContracts])
            | Idle \<Rightarrow> ((state, queue_of orc (shipSymbol state)), []))))
            (actionQueues orc)\<rparr>"
    using assms(1) by (auto simp: planNextActions_def Let_def split: prod.splits)
  moreover have "within_budget (snd (fst (case behavior state of
              Mining \<Rightarrow> (planMiningActions ship state (queue_of orc (shipSymbol state)), [])
            | Trading \<Rightarrow> (planTradingActions ship state (queue_of orc (shipSymbol state)), [])
            | ContractB \<Rightarrow> (planContractActions (getContracts_result env) ship state
                               (queue_of orc (shipSymbol state)), [GetContracts])
            | Idle \<Rightarrow> ((state, queue_of orc (shipSymbol state)), []))))"
    using q planMiningActions_budget planTradingActions_budget planContractActions_budget
    by (cases "behavior state") simp_all
  ultimately show ?thesis
    using queues_within_budget_set [OF assms(2)] by simp
qed

lemma processShipAutomation_budget:
  assumes "queues_within_budget orc"
  shows "queues_within_budget (r_orch (processShipAutomation env state orc))"
proof (cases "getShip_result env")
  case (Inl msg)
  then show ?thesis using assms by (simp add: processShipAutomation_thrown)
next
  case (Inr ship)
  show ?thesis
  proof (cases "activeCooldown ship")
    case (Some r)
    then show ?thesis using Inr assms by (simp add: processShipAutomation_cooldown)
  next
    case None
    obtain state1 queue1 calls1 where
      pq: "processActionQueue env ship state (queue_of orc (shipSymbol state))
             = (state1, queue1, calls1)"
      using prod_cases3 by blast
    have q1: "within_budget queue1"
      using processActionQueue_budget [OF queues_within_budget_lookup [OF assms],
          of env ship state "shipSymbol state"] pq by simp
    have o1: "queues_within_budget
                (if queue_of orc (shipSymbol state) \<noteq> []
                 then orc\<lparr>actionQueues := map_set (shipSymbol state) queue1 (actionQueues orc)\<rparr>
                 else orc)"
      using assms q1 by (simp add: queues_within_budget_set)
    show ?thesis
    proof (cases "queue1 = []")
      case True
      obtain state2 orc2 calls2 where
        pn: "planNextActions env ship state1
               (if queue_of orc (shipSymbol state) \<noteq> []
                then orc\<lparr>actionQueues := map_set (shipSymbol state) [] (actionQueues orc)\<rparr>
                else orc) = (state2, orc2, calls2)"
        using prod_cases3 by blast
      have "queues_within_budget
                (if queue_of orc (shipSymbol state) \<noteq> []
                 then orc\<lparr>actionQueues := map_set (shipSymbol state) [] (actionQueues orc)\<rparr>
                 else orc)"
        using o1 unfolding True .
      then have "queues_within_budget orc2"
        by (rule planNextActions_budget [OF pn])
      then show ?thesis
        by (simp add: processShipAutomation_plan [OF Inr None pq [unfolded True] pn])
    next
      case False
      then show ?thesis
        using o1 by (simp add: processShipAutomation_no_plan [OF Inr None pq False])
    qed
  qed
qed

lemma tickShip_budget:
  "queues_within_budget orc \<Longrightarrow> queues_within_budget (tickShip envs state orc)"
  using processShipAutomation_budget [of orc "envs (shipSymbol state)" state]
  by (simp add: tickShip_def Let_def split: option.splits)

lemma fold_tickShip_budget:
  "queues_within_budget orc \<Longrightarrow> queues_within_budget (fold (tickShip envs) L orc)"
  by (induction L arbitrary: orc) (simp_all add: tickShip_budget)

lemma run_budget:
  assumes "queues_within_budget orc"
  shows "queues_within_budget (run c orc)"
proof (cases c)
  case (Start now sy beh ov)
  have "queues_within_budget (orc\<lparr>actionQueues := map_set sy [] (actionQueues orc)\<rparr>)"
    using assms by (intro queues_within_budget_set) simp_all
  then show ?thesis
    using Start by (simp add: startAutomation_def Let_def start_def queues_within_budget_def
        saveStates_def)
next
  case (Stop sy)
  then show ?thesis using assms by (simp add: stopAutomation_def split: option.splits)
next
  case (Pause sy)
  then show ?thesis using assms by (simp add: pauseAutomation_def split: option.splits)
next
  case (Resume sy)
  then show ?thesis using assms by (simp add: resumeAutomation_def split: option.splits)
next
  case (Tick envs)
  then show ?thesis using assms by (simp add: tick_def fold_tickShip_budget)
qed

lemma reachable_budget: "reachable orc \<Longrightarrow> queues_within_budget orc"
proof (induction rule: reachable.induct)
  case (constructed st)
  show ?case by (simp add: queues_within_budget_def actionQueues_constructed)
next
  case (ran orc c)
  then show ?case by (simp add: run_budget)
qed

lemma reachable_fold_run: "reachable orc \<Longrightarrow> reachable (fold run cs orc)"
  by (induction cs arbitrary: orc) (simp_all add: reachable.ran)

text \<open>
  Claim C10. In every orchestrator reachable from its construction, every step in every
  ship's queue has a retry count below \<open>maxRetries\<close>, hence not above it. The only
  assignment to a retry count is the increment of the head step after a failed execution:
  right after it the count is at most \<open>maxRetries\<close>, and when it equals \<open>maxRetries\<close>
  the step is removed from the queue in the same block; otherwise the step stays at the
  head with the incremented count.
\<close>

theorem C10_retry_count_never_exceeds_max:
  assumes "reachable orc"
  shows "(\<forall>a \<in> set (queue_of orc sy). retries a < maxRetries a \<and> retries a \<le> maxRetries a)
       \<and> (queue_of orc sy = a # rest \<longrightarrow>
            retries (countRetry a) \<le> maxRetries (countRetry a)
          \<and> (\<not> fst (executeAction (gw_ok env) ship a)
               \<and> retries (countRetry a) = maxRetries (countRetry a) \<longrightarrow>
               fst (snd (processActionQueue env ship state (a # rest))) = rest)
          \<and> (\<not> fst (executeAction (gw_ok env) ship a)
               \<and> retries (countRetry a) < maxRetries (countRetry a) \<longrightarrow>
               fst (snd (processActionQueue env ship state (a # rest))) = countRetry a # rest))"
proof -
  have b: "within_budget (queue_of orc sy)"
    using reachable_budget [OF assms] by (rule queues_within_budget_lookup)
  then have one: "\<forall>a \<in> set (queue_of orc sy). retries a < maxRetries a \<and> retries a \<le> maxRetries a"
    by (auto simp: within_budget_def)
  have two: "retries (countRetry a) \<le> maxRetries (countRetry a)" if "queue_of orc sy = a # rest"
    using b that by (simp add: within_budget_def countRetry_def)
  have three: "fst (snd (processActionQueue env ship state (a # rest))) = rest"
    if "\<not> fst (executeAction (gw_ok env) ship a)"
      "retries (countRetry a) = maxRetries (countRetry a)"
    using that by (auto simp: processActionQueue_def split: prod.splits)
  have four: "fst (snd (processActionQueue env ship state (a # rest))) = countRetry a # rest"
    if "\<not> fst (executeAction (gw_ok env) ship a)"
      "retries (countRetry a) < maxRetries (countRetry a)"
    using that by (auto simp: processActionQueue_def split: prod.splits)
  show ?thesis
    using one two three four by blast
qed

lemma retryOrc_reachable: "reachable retryOrc"
  unfolding retryOrc_def by (intro reachable_fold_run reachable.constructed)

lemma freshOrc_reachable: "reachable freshOrc"
  unfolding freshOrc_def by (intro reachable_fold_run reachable.constructed)

theorem C10_witness:
  "reachable retryOrc
   \<and> queue_of retryOrc ''SHIP-1'' = [(new_step Extract None 3)\<lparr>retries := 2\<rparr>]
   \<and> retries ((new_step Extract None 3)\<lparr>retries := 2\<rparr>)
       < maxRetries ((new_step Extract None 3)\<lparr>retries := 2\<rparr>)
   \<and> \<not> fst (executeAction (gw_ok (calmEnv dockedFullShip)) dockedFullShip
              ((new_step Extract None 3)\<lparr>retries := 2\<rparr>))
   \<and> retries (countRetry ((new_step Extract None 3)\<lparr>retries := 2\<rparr>))
       = maxRetries (countRetry ((new_step Extract None 3)\<lparr>retries := 2\<rparr>))
   \<and> fst (snd (processActionQueue (calmEnv dockedFullShip) dockedFullShip retryState
                 [(new_step Extract None 3)\<lparr>retries := 2\<rparr>])) = []
   \<and> reachable freshOrc
   \<and> queue_of freshOrc ''SHIP-1'' = [new_step Extract None 3]
   \<and> \<not> fst (executeAction (gw_ok (calmEnv dockedFullShip)) dockedFullShip (new_step Extract None 3))
   \<and> retries (countRetry (new_step Extract None 3)) < maxRetries (countRetry (new_step Extract None 3))
   \<and> fst (snd (processActionQueue (calmEnv dockedFullShip) dockedFullShip retryState
                 [new_step Extract None 3])) = [(new_step Extract None 3)\<lparr>retries := 1\<rparr>]"
proof -
  have e: "\<not> fst (executeAction (gw_ok (calmEnv dockedFullShip)) dockedFullShip
              ((new_step Extract None 3)\<lparr>retries := n\<rparr>))" for n
    by (simp add: executeAction_def new_step_def dockedFullShip_def dockedShip_def)
  have e0: "\<not> fst (executeAction (gw_ok (calmEnv dockedFullShip)) dockedFullShip
              (new_step Extract None 3))"
    by (simp add: executeAction_def new_step_def dockedFullShip_def dockedShip_def)
  show ?thesis
    using C10_retry_count_never_exceeds_max [OF retryOrc_reachable,
        where sy = "''SHIP-1''" and a = "(new_step Extract None 3)\<lparr>retries := 2\<rparr>"
          and rest = "[]" and env = "calmEnv dockedFullShip" and ship = dockedFullShip
          and state = retryState]
      C10_retry_count_never_exceeds_max [OF freshOrc_reachable,
        where sy = "''SHIP-1''" and a = "new_step Extract None 3"
          and rest = "[]" and env = "calmEnv dockedFullShip" and ship = dockedFullShip
          and state = retryState]
      retryOrc_reachable freshOrc_reachable e [of 2] e0
    by (simp add: retryOrc_queue freshOrc_queue countRetry_def new_step_def)
qed

end
